theory Spec2Isabelle
  imports Complex_Main "HOL-Library.Word"
begin

unbundle bit_operations_syntax

section \<open>Machine types and the constants of MLX90642.h\<close>

type_synonym u8 = "8 word"
type_synonym u16 = "16 word"

text \<open>\<open>int16_t\<close> is a 16-bit pattern whose value is read with \<^const>\<open>sint\<close>.\<close>

type_synonym i16 = "16 word"

definition MLX90642_ADDR :: u8 where
  "MLX90642_ADDR = 0x66"

definition NUM_PIXELS :: int where
  "NUM_PIXELS = 768"

definition FRAME_ADDR :: int where
  "FRAME_ADDR = 0x342C"

definition FRAME_BUFFER_SIZE :: int where
  "FRAME_BUFFER_SIZE = 6000"

section \<open>The two-wire bus\<close>

text \<open>
  The driver talks to the sensor through the Arduino \<open>Wire\<close> object, which is not part of
  the repository. What the sensor answers is a parameter of the model: a \<open>bus_env\<close> gives,
  for a device state of any type \<open>'d\<close>, the completion status of a write transaction, the
  bytes the device returns to a read request, and what the device does while the processor
  sleeps.
\<close>

record 'd bus_env =
  transmit :: "u8 \<Rightarrow> u8 list \<Rightarrow> bool \<Rightarrow> 'd \<Rightarrow> u8 \<times> 'd"
  request :: "u8 \<Rightarrow> nat \<Rightarrow> 'd \<Rightarrow> u8 list \<times> 'd"
  wait :: "nat \<Rightarrow> 'd \<Rightarrow> 'd"

text \<open>Everything that crosses the bus is logged, in order.\<close>

datatype event =
    Transmit u8 "u8 list" bool u8
  | Request u8 nat "u8 list"
  | Delay nat

text \<open>
  The state of one run: the transmit and receive buffers of \<open>Wire\<close>, the device, the log,
  and the function-local \<open>static uint16_t lastProgress\<close> of \<open>isNewDataAvailable\<close>.
\<close>

record 'd state =
  txAddress :: u8
  txBuffer :: "u8 list"
  rxBuffer :: "u8 list"
  device :: 'd
  trace :: "event list"
  lastProgress :: u16

text \<open>The constructor body is empty and the static starts at 0.\<close>

definition init_state :: "'d \<Rightarrow> 'd state" where
  "init_state d =
     \<lparr>txAddress = 0, txBuffer = [], rxBuffer = [], device = d, trace = [], lastProgress = 0\<rparr>"

text \<open>
  Modelled from the spec: the bus transport capability of section 6 (begin a transaction,
  queue bytes, end the transaction with or without releasing the bus and report its
  status, request N bytes and make them available for sequential reads, report how many
  are available), with the buffer discipline of Arduino's \<open>TwoWire\<close>: a request delivers
  at most the quantity asked for, and \<open>read\<close> on an empty buffer returns -1.
\<close>

definition Wire_beginTransmission :: "u8 \<Rightarrow> 'd state \<Rightarrow> 'd state" where
  "Wire_beginTransmission a s = s\<lparr>txAddress := a, txBuffer := []\<rparr>"

definition Wire_write :: "u8 \<Rightarrow> 'd state \<Rightarrow> 'd state" where
  "Wire_write b s = s\<lparr>txBuffer := txBuffer s @ [b]\<rparr>"

definition Wire_endTransmission :: "'d bus_env \<Rightarrow> bool \<Rightarrow> 'd state \<Rightarrow> u8 \<times> 'd state" where
  "Wire_endTransmission env sendStop s =
     (let (st, d) = transmit env (txAddress s) (txBuffer s) sendStop (device s)
      in (st, s\<lparr>txBuffer := [], device := d,
                 trace := trace s @ [Transmit (txAddress s) (txBuffer s) sendStop st]\<rparr>))"

definition Wire_requestFrom :: "'d bus_env \<Rightarrow> u8 \<Rightarrow> nat \<Rightarrow> 'd state \<Rightarrow> nat \<times> 'd state" where
  "Wire_requestFrom env a n s =
     (let (bs, d) = request env a n (device s);
          got = take n bs
      in (length got, s\<lparr>rxBuffer := got, device := d,
                         trace := trace s @ [Request a n got]\<rparr>))"

definition Wire_available :: "'d state \<Rightarrow> int" where
  "Wire_available s = int (length (rxBuffer s))"

definition Wire_read :: "'d state \<Rightarrow> int \<times> 'd state" where
  "Wire_read s =
     (case rxBuffer s of
        [] \<Rightarrow> (- 1, s)
      | b # bs \<Rightarrow> (uint b, s\<lparr>rxBuffer := bs\<rparr>))"

definition delay :: "'d bus_env \<Rightarrow> nat \<Rightarrow> 'd state \<Rightarrow> 'd state" where
  "delay env ms s = s\<lparr>device := wait env ms (device s), trace := trace s @ [Delay ms]\<rparr>"

section \<open>Register access (MLX90642.cpp)\<close>

text \<open>
  \<open>Wire.write(readByte >> 8)\<close> and \<open>Wire.write(readByte & 0xFF)\<close> pass an \<open>int\<close> that
  \<open>write\<close> narrows to a byte; \<open>uint8_t hi = Wire.read()\<close> narrows the \<open>int\<close> that was read.
\<close>

definition hi_byte :: "u16 \<Rightarrow> u8" where
  "hi_byte w = ucast (drop_bit 8 w)"

definition lo_byte :: "u16 \<Rightarrow> u8" where
  "lo_byte w = ucast (w AND 0xFF)"

definition readAddr_unsigned :: "'d bus_env \<Rightarrow> u16 \<Rightarrow> 'd state \<Rightarrow> u16 \<times> 'd state" where
  "readAddr_unsigned env readByte s =
     (let s1 = Wire_beginTransmission MLX90642_ADDR s;
          s2 = Wire_write (hi_byte readByte) s1;
          s3 = Wire_write (lo_byte readByte) s2;
          (st, s4) = Wire_endTransmission env False s3
      in if st \<noteq> 0 then (0xFFFF, s4)
         else
           let (n, s5) = Wire_requestFrom env MLX90642_ADDR 2 s4
           in if Wire_available s5 < 2 then (0xFFFF, s5)
              else
                let (r1, s6) = Wire_read s5;
                    hi = (word_of_int r1 :: u8);
                    (r2, s7) = Wire_read s6;
                    lo = (word_of_int r2 :: u8)
                in ((word_of_int (push_bit 8 (uint hi)) :: u16) OR ucast lo, s7))"

definition readAddr_signed :: "'d bus_env \<Rightarrow> u16 \<Rightarrow> 'd state \<Rightarrow> i16 \<times> 'd state" where
  "readAddr_signed env readByte s =
     (let s1 = Wire_beginTransmission MLX90642_ADDR s;
          s2 = Wire_write (hi_byte readByte) s1;
          s3 = Wire_write (lo_byte readByte) s2;
          (st, s4) = Wire_endTransmission env False s3
      in if st \<noteq> 0 then (word_of_int 0xFFFF, s4)
         else
           let (n, s5) = Wire_requestFrom env MLX90642_ADDR 2 s4
           in if Wire_available s5 < 2 then (word_of_int 0xFFFF, s5)
              else
                let (r1, s6) = Wire_read s5;
                    hi = (word_of_int r1 :: u8);
                    (r2, s7) = Wire_read s6;
                    lo = (word_of_int r2 :: u8)
                in (word_of_int (push_bit 8 (uint hi) OR uint lo), s7))"

section \<open>Pixel addressing\<close>

text \<open>
  \<open>pxl\<close> is promoted to \<open>int\<close> for the comparison and the arithmetic; the sum is narrowed
  to \<open>uint16_t\<close> on return.
\<close>

definition pix_addr :: "u16 \<Rightarrow> u16" where
  "pix_addr pxl =
     (if uint pxl \<ge> NUM_PIXELS then 0 else word_of_int (FRAME_ADDR + uint pxl * 2))"

section \<open>Frame synchronisation\<close>

definition isNewDataAvailable :: "'d bus_env \<Rightarrow> 'd state \<Rightarrow> bool \<times> 'd state" where
  "isNewDataAvailable env s =
     (let (progress, s1) = readAddr_unsigned env 0x3C10 s;
          newFrame = (progress < lastProgress s1);
          s2 = s1\<lparr>lastProgress := progress\<rparr>
      in (newFrame, s2))"

section \<open>EEPROM write and refresh rate\<close>

definition writeEEPROM :: "'d bus_env \<Rightarrow> u16 \<Rightarrow> u16 \<Rightarrow> 'd state \<Rightarrow> bool \<times> 'd state" where
  "writeEEPROM env eepromAddr newValue s =
     (let s1 = Wire_beginTransmission MLX90642_ADDR s;
          s2 = Wire_write 0x3A s1;
          s3 = Wire_write 0x2E s2;
          s4 = Wire_write (hi_byte eepromAddr) s3;
          s5 = Wire_write (lo_byte eepromAddr) s4;
          s6 = Wire_write (hi_byte newValue) s5;
          s7 = Wire_write (lo_byte newValue) s6;
          (st, s8) = Wire_endTransmission env True s7
      in if st \<noteq> 0 then (False, s8)
         else (True, delay env 10 s8))"

definition setRefreshRate :: "'d bus_env \<Rightarrow> u8 \<Rightarrow> 'd state \<Rightarrow> bool \<times> 'd state" where
  "setRefreshRate env rate_hz s =
     (if rate_hz < 2 \<or> rate_hz > 5 then (False, s)
      else
        let (ctrl, s1) = readAddr_unsigned env 0x11F0 s
        in if ctrl = 0xFFFF then (False, s1)
           else
             let ctrl' = ctrl AND NOT 7;
                 ctrl'' = ctrl' OR ucast rate_hz;
                 (ok, s2) = writeEEPROM env 0x11F0 ctrl'' s1
             in if \<not> ok then (False, s2)
                else
                  let s3 = delay env 20 s2;
                      (ctrl2, s4) = readAddr_unsigned env 0x11F0 s3
                  in if ctrl2 = 0xFFFF then (False, s4)
                     else ((ctrl2 AND 0x07) = ucast rate_hz, s4))"

section \<open>Single-precision arithmetic\<close>

text \<open>
  A finite \<open>float\<close> is the rational number it denotes. \<open>f32_round\<close> is IEEE 754 rounding
  to the nearest binary32 value, ties to even: the exponent \<open>e\<close> of the result is the
  largest one in -126..127 with \<open>2 ^ e \<le> \<bar>x\<bar>\<close> (-126 in the subnormal range), and the
  result is the multiple of \<open>2 ^ (e - 23)\<close> nearest to \<open>x\<close>. The driver only divides a
  16-bit integer by 50 or by 100, so overflow, infinities, NaN and negative zero do not
  arise.
\<close>

type_synonym float32 = rat

function f32_exponent :: "rat \<Rightarrow> int \<Rightarrow> int" where
  "f32_exponent x e =
     (if e \<le> - 126 \<or> 2 powi e \<le> x then e else f32_exponent x (e - 1))"
  by pat_completeness auto
termination
  by (relation "measure (\<lambda>(x, e). nat (e + 126))") auto

definition round_half_even :: "rat \<Rightarrow> int" where
  "round_half_even q =
     (let f = \<lfloor>q\<rfloor>; r = q - of_int f
      in if r < 1 / 2 then f
         else if 1 / 2 < r then f + 1
         else if even f then f else f + 1)"

definition f32_round :: "rat \<Rightarrow> float32" where
  "f32_round x =
     (let e = f32_exponent \<bar>x\<bar> 127; u = 2 powi (e - 23)
      in sgn x * of_int (round_half_even (\<bar>x\<bar> / u)) * u)"

text \<open>
  \<open>int16_t / 100.0f\<close>: the integer is promoted and converted to \<open>float\<close> (exactly: its
  magnitude is below \<open>2 ^ 24\<close>), and the quotient is rounded.
\<close>

definition f32_of_int16 :: "i16 \<Rightarrow> float32" where
  "f32_of_int16 w = of_int (sint w)"

definition f32_div :: "float32 \<Rightarrow> float32 \<Rightarrow> float32" where
  "f32_div a b = f32_round (a / b)"

section \<open>Temperature decoding\<close>

definition readTa :: "'d bus_env \<Rightarrow> 'd state \<Rightarrow> float32 \<times> 'd state" where
  "readTa env s =
     (let (w, s1) = readAddr_signed env 0x3A2C s;
          Ta_calc = f32_div (f32_of_int16 w) 100
      in (Ta_calc, s1))"

text \<open>
  A read or write outside an array is undefined behaviour in C++; the model stops there
  with the index of the access.
\<close>

datatype error = ReadOutOfBounds nat | WriteOutOfBounds nat

text \<open>
  \<open>Tram\<close> is the caller's array. The loop variable is an \<open>int\<close> that runs from 0 and is
  narrowed to \<open>uint16_t\<close> for \<open>pix_addr\<close>. Pixel \<open>i\<close> is read from the bus before
  \<open>Tram[i]\<close> is stored.
\<close>

function readTempC_loop ::
  "'d bus_env \<Rightarrow> nat \<Rightarrow> float32 list \<Rightarrow> 'd state \<Rightarrow> error + float32 list \<times> 'd state" where
  "readTempC_loop env i Tram s =
     (if int i < NUM_PIXELS then
        let (w, s1) = readAddr_signed env (pix_addr (word_of_nat i)) s
        in if i < length Tram
           then readTempC_loop env (i + 1) (Tram[i := f32_div (f32_of_int16 w) 50]) s1
           else Inl (WriteOutOfBounds i)
      else Inr (Tram, s))"
  by pat_completeness auto
termination
  by (relation "measure (\<lambda>(env, i, Tram, s). nat NUM_PIXELS - i)")
    (auto simp: NUM_PIXELS_def)

definition readTempC ::
  "'d bus_env \<Rightarrow> float32 list \<Rightarrow> 'd state \<Rightarrow> error + float32 list \<times> 'd state" where
  "readTempC env Tram s = readTempC_loop env 0 Tram s"

section \<open>Frame output\<close>

text \<open>
  \<open>snprintf(&frameBuffer[pos], n, ",%.1f", v)\<close>, as the C standard defines it: of the text
  the format produces, at most \<open>n - 1\<close> characters and a terminating NUL are stored, and
  the length of the whole text is returned. The text itself comes from the C library; it
  is the parameter \<open>fmt\<close> of \<open>printFrame\<close> below.
\<close>

definition snprintf :: "char list \<Rightarrow> nat \<Rightarrow> nat \<Rightarrow> string \<Rightarrow> char list \<times> int" where
  "snprintf buf pos n txt =
     (if n = 0 then (buf, int (length txt))
      else
        let out = take (n - 1) txt @ [CHR 0x00]
        in (take pos buf @ out @ drop (pos + length out) buf, int (length txt)))"

text \<open>
  \<open>frameBuffer\<close> is the member array of \<open>FRAME_BUFFER_SIZE\<close> characters. The loop returns
  the final \<open>index\<close> and buffer, or stops at a read outside \<open>Tdat\<close>.
\<close>

function printFrame_loop ::
  "('f \<Rightarrow> string) \<Rightarrow> 'f list \<Rightarrow> nat \<Rightarrow> int \<Rightarrow> char list \<Rightarrow> error + int \<times> char list" where
  "printFrame_loop fmt Tdat i index frameBuffer =
     (if int i < NUM_PIXELS then
        if i < length Tdat then
          let (frameBuffer', written) =
                snprintf frameBuffer (nat index) (nat (FRAME_BUFFER_SIZE - index)) (fmt (Tdat ! i))
          in if written \<le> 0 then Inr (index, frameBuffer')
             else
               let index' = index + written
               in if index' \<ge> FRAME_BUFFER_SIZE - 10 then Inr (index', frameBuffer')
                  else printFrame_loop fmt Tdat (i + 1) index' frameBuffer'
        else Inl (ReadOutOfBounds i)
      else Inr (index, frameBuffer))"
  by pat_completeness auto
termination
  by (relation "measure (\<lambda>(fmt, Tdat, i, index, frameBuffer). nat NUM_PIXELS - i)")
    (auto simp: NUM_PIXELS_def)

text \<open>
  After the loop the newline goes to \<open>frameBuffer[index]\<close> and the NUL to
  \<open>frameBuffer[index + 1]\<close>; a store at or beyond \<open>FRAME_BUFFER_SIZE\<close> is outside the array.
  The result is the buffer and the \<open>index + 1\<close> bytes handed to \<open>Serial.write\<close>.
\<close>

definition printFrame ::
  "('f \<Rightarrow> string) \<Rightarrow> 'f list \<Rightarrow> char list \<Rightarrow> error + char list \<times> string" where
  "printFrame fmt Tdat frameBuffer =
     (case printFrame_loop fmt Tdat 0 0 frameBuffer of
        Inl e \<Rightarrow> Inl e
      | Inr (index, buf1) \<Rightarrow>
          if index \<ge> FRAME_BUFFER_SIZE then Inl (WriteOutOfBounds (nat index))
          else
            let buf2 = buf1[nat index := CHR 0x0A];
                index' = index + 1
            in if index' \<ge> FRAME_BUFFER_SIZE then Inl (WriteOutOfBounds (nat index'))
               else
                 let buf3 = buf2[nat index' := CHR 0x00]
                 in Inr (buf3, take (nat index') buf3))"

section \<open>Vocabulary of the specification\<close>

text \<open>
  The definitions from here on are not code of the driver. They name what the
  specification talks about (what one read put on the bus, the stages of a rate update,
  the frame a run decodes, wrap detections) and two transports for concrete runs, so that
  the theorems below can state each claim in its own words.
\<close>

subsection \<open>A scripted transport for concrete runs\<close>

text \<open>
  The device state of the mock is a script: the statuses that successive write
  transactions complete with (0 once the list is used up) and the byte strings that
  successive read requests return (nothing once the list is used up).
\<close>

type_synonym mock = "u8 list \<times> u8 list list"

definition mock_env :: "mock bus_env" where
  "mock_env =
     \<lparr>transmit = (\<lambda>a bs stop (sts, rs).
          case sts of [] \<Rightarrow> (0, (sts, rs)) | st # sts' \<Rightarrow> (st, (sts', rs))),
      request = (\<lambda>a n (sts, rs).
          case rs of [] \<Rightarrow> ([], (sts, rs)) | r # rs' \<Rightarrow> (r, (sts, rs'))),
      wait = (\<lambda>ms m. m)\<rparr>"

subsection \<open>The outcome of one register read, in terms of what the bus answered\<close>

definition addr_phase :: "'d bus_env \<Rightarrow> u16 \<Rightarrow> 'd state \<Rightarrow> u8 \<times> 'd" where
  "addr_phase env a s = transmit env MLX90642_ADDR [hi_byte a, lo_byte a] False (device s)"

definition response :: "'d bus_env \<Rightarrow> u16 \<Rightarrow> 'd state \<Rightarrow> u8 list" where
  "response env a s =
     take 2 (fst (request env MLX90642_ADDR 2 (snd (addr_phase env a s))))"

definition read_failed :: "'d bus_env \<Rightarrow> u16 \<Rightarrow> 'd state \<Rightarrow> bool" where
  "read_failed env a s \<longleftrightarrow>
     fst (addr_phase env a s) \<noteq> 0 \<or> length (response env a s) < 2"

text \<open>Two's-complement reading of a 16-bit pattern given as a number in 0..65535.\<close>

definition as_signed16 :: "int \<Rightarrow> int" where
  "as_signed16 v = (if v < 32768 then v else v - 65536)"

text \<open>The events one register read puts on the bus.\<close>

definition read_events :: "'d bus_env \<Rightarrow> u16 \<Rightarrow> 'd state \<Rightarrow> event list" where
  "read_events env a s =
     Transmit MLX90642_ADDR [hi_byte a, lo_byte a] False (fst (addr_phase env a s))
     # (if fst (addr_phase env a s) \<noteq> 0 then []
        else [Request MLX90642_ADDR 2 (response env a s)])"

text \<open>
  The events of one EEPROM write: the configuration command (opcode, sub-opcode, address
  and data, most significant byte first, bus released), and the 10 ms wait on success.
\<close>

definition write_status :: "'d bus_env \<Rightarrow> u16 \<Rightarrow> u16 \<Rightarrow> 'd state \<Rightarrow> u8" where
  "write_status env a v s =
     fst (transmit env MLX90642_ADDR [0x3A, 0x2E, hi_byte a, lo_byte a, hi_byte v, lo_byte v]
            True (device s))"

definition write_events :: "'d bus_env \<Rightarrow> u16 \<Rightarrow> u16 \<Rightarrow> 'd state \<Rightarrow> event list" where
  "write_events env a v s =
     Transmit MLX90642_ADDR [0x3A, 0x2E, hi_byte a, lo_byte a, hi_byte v, lo_byte v] True
       (write_status env a v s)
     # (if write_status env a v s \<noteq> 0 then [] else [Delay 10])"

fun eeprom_write_event :: "event \<Rightarrow> bool" where
  "eeprom_write_event (Transmit a bs stop st) = (take 2 bs = [0x3A, 0x2E])"
| "eeprom_write_event (Request a n bs) = False"
| "eeprom_write_event (Delay ms) = False"

text \<open>Two bytes packed most significant byte first.\<close>

definition packed :: "u8 \<Rightarrow> u8 \<Rightarrow> u16" where
  "packed hi lo = word_of_int (push_bit 8 (uint hi) OR uint lo)"

subsection \<open>Frame synchronisation: repeated polling\<close>

text \<open>\<open>poll env n s\<close> calls \<open>isNewDataAvailable\<close> \<open>n\<close> times and collects the answers.\<close>

fun poll :: "'d bus_env \<Rightarrow> nat \<Rightarrow> 'd state \<Rightarrow> bool list \<times> 'd state" where
  "poll env 0 s = ([], s)"
| "poll env (Suc n) s =
     (let (b, s1) = isNewDataAvailable env s;
          (bs, s2) = poll env n s1
      in (b # bs, s2))"

text \<open>
  The wrap detections the specification describes for a sequence of progress readings:
  a reading signals a new frame when it is strictly below the one before it.
\<close>

fun wrap_detections :: "u16 \<Rightarrow> u16 list \<Rightarrow> bool list" where
  "wrap_detections prev [] = []"
| "wrap_detections prev (r # rs) = (r < prev) # wrap_detections r rs"

definition word_bytes :: "u16 \<Rightarrow> u8 list" where
  "word_bytes w = [hi_byte w, lo_byte w]"

text \<open>A transport that answers every read with the same word.\<close>

definition const_env :: "u16 \<Rightarrow> unit bus_env" where
  "const_env w =
     \<lparr>transmit = (\<lambda>a bs stop d. (0, d)),
      request = (\<lambda>a n d. (word_bytes w, d)),
      wait = (\<lambda>ms d. d)\<rparr>"

subsection \<open>The configuration word after an update\<close>

text \<open>
  The word the specification asks for: the low 3 bits replaced by the rate code, the
  upper 13 bits those of the word that was read.
\<close>

definition updated_config :: "u16 \<Rightarrow> u8 \<Rightarrow> u16" where
  "updated_config c rate = word_of_nat (8 * (unat c div 8) + unat rate)"

subsection \<open>The stages of a refresh-rate update\<close>

text \<open>
  The three bus exchanges the specification lists for \<open>setRefreshRate\<close>: the initial read
  of the configuration word, the write of the updated word, and the verification read
  after the 20 ms settling delay.
\<close>

definition cfg_read1 :: "'d bus_env \<Rightarrow> 'd state \<Rightarrow> u16 \<times> 'd state" where
  "cfg_read1 env s = readAddr_unsigned env 0x11F0 s"

definition cfg_write :: "'d bus_env \<Rightarrow> u8 \<Rightarrow> 'd state \<Rightarrow> bool \<times> 'd state" where
  "cfg_write env rate s =
     writeEEPROM env 0x11F0 (updated_config (fst (cfg_read1 env s)) rate) (snd (cfg_read1 env s))"

definition cfg_read2 :: "'d bus_env \<Rightarrow> u8 \<Rightarrow> 'd state \<Rightarrow> u16 \<times> 'd state" where
  "cfg_read2 env rate s = readAddr_unsigned env 0x11F0 (delay env 20 (snd (cfg_write env rate s)))"

subsection \<open>The frame one run decodes\<close>

text \<open>
  What the specification says of a frame: pixel \<open>i\<close> is read after pixels \<open>0..i-1\<close>, each
  exactly once.
\<close>

primrec state_before :: "'d bus_env \<Rightarrow> 'd state \<Rightarrow> nat \<Rightarrow> 'd state" where
  "state_before env s 0 = s"
| "state_before env s (Suc i) =
     snd (readAddr_signed env (pix_addr (word_of_nat i)) (state_before env s i))"

definition raw_pixel :: "'d bus_env \<Rightarrow> 'd state \<Rightarrow> nat \<Rightarrow> i16" where
  "raw_pixel env s i = fst (readAddr_signed env (pix_addr (word_of_nat i)) (state_before env s i))"

text \<open>The frame the specification describes: pixel \<open>i\<close> is the raw word of pixel \<open>i\<close> over 50.\<close>

definition decoded_frame :: "'d bus_env \<Rightarrow> 'd state \<Rightarrow> float32 list" where
  "decoded_frame env s =
     map (\<lambda>i. f32_round (of_int (sint (raw_pixel env s i)) / 50)) [0..<768]"

text \<open>The text of the first \<open>i\<close> pixels of a frame, as the formatter renders them.\<close>

definition frame_text :: "('f \<Rightarrow> string) \<Rightarrow> 'f list \<Rightarrow> nat \<Rightarrow> string" where
  "frame_text fmt Tdat i = concat (map fmt (take i Tdat))"

section \<open>Words and bytes\<close>

lemma uint_u8_take: "take_bit 8 (uint (lo::u8)) = uint lo"
  using uint_lt2p [of lo] by (simp add: take_bit_int_eq_self)

lemma pack_int: "push_bit 8 (uint (hi::u8)) OR uint (lo::u8) = 256 * uint hi + uint lo"
proof -
  have "push_bit 8 (uint hi) OR uint lo = concat_bit 8 (uint lo) (uint hi)"
    by (simp add: concat_bit_def uint_u8_take or.commute)
  also have "\<dots> = uint lo + push_bit 8 (uint hi)"
    by (simp add: concat_bit_eq uint_u8_take)
  finally show ?thesis by (simp add: push_bit_eq_mult)
qed

lemma pack_word: "(word_of_int (push_bit 8 (uint (hi::u8))) :: u16) OR ucast (lo::u8)
   = word_of_int (push_bit 8 (uint hi) OR uint lo)"
  by (simp add: word_wi_log_defs(3) [symmetric])

lemma uint_woi16: "0 \<le> k \<Longrightarrow> k < 65536 \<Longrightarrow> uint (word_of_int k :: u16) = k"
  by (simp add: uint_word_of_int_eq take_bit_int_eq_self)

lemma pack_uint: "uint (word_of_int (push_bit 8 (uint (hi::u8)) OR uint (lo::u8)) :: u16) = 256 * uint hi + uint lo"
proof -
  have "uint hi < 256" "uint lo < 256" "0 \<le> uint hi" "0 \<le> uint lo"
    using uint_lt2p [of hi] uint_lt2p [of lo] by simp_all
  then have "0 \<le> 256 * uint hi + uint lo" "256 * uint hi + uint lo < 65536" by simp_all
  then show ?thesis
    unfolding pack_int by (rule uint_woi16)
qed

lemma sint16: "sint (w::u16) = as_signed16 (uint w)"
proof -
  have b: "0 \<le> uint w" "uint w < 65536" using uint_lt2p [of w] by simp_all
  have "sint (word_of_int (uint w) :: u16) = (uint w + 2 ^ 15) mod 2 ^ 16 - 2 ^ 15"
    using int_word_sint [where 'a=16, of "uint w"] by simp
  then have s: "sint w = (uint w + 32768) mod 65536 - 32768" by simp
  show ?thesis
  proof (cases "uint w < 32768")
    case True
    with b have "(uint w + 32768) mod 65536 = uint w + 32768" by simp
    with True s show ?thesis by (simp add: as_signed16_def)
  next
    case False
    with b have "(uint w + 32768) mod 65536 = uint w + 32768 - 65536"
      by (simp add: mod_pos_geq)
    with False s show ?thesis by (simp add: as_signed16_def)
  qed
qed

lemma sint16_bounds: "- 32768 \<le> sint (w::i16)" "sint (w::i16) \<le> 32767"
proof -
  have a: "0 \<le> uint w" by simp
  have b: "uint w < 65536" using uint_lt2p [of w] by simp
  show "- 32768 \<le> sint w"
  proof (cases "uint w < 32768")
    case True
    then have "sint w = uint w" by (simp add: sint16 as_signed16_def)
    with a show ?thesis by linarith
  next
    case False
    then have "sint w = uint w - 65536" by (simp add: sint16 as_signed16_def)
    with False show ?thesis by linarith
  qed
  show "sint w \<le> 32767"
  proof (cases "uint w < 32768")
    case True
    then have "sint w = uint w" by (simp add: sint16 as_signed16_def)
    with True show ?thesis by linarith
  next
    case False
    then have "sint w = uint w - 65536" by (simp add: sint16 as_signed16_def)
    with b show ?thesis by linarith
  qed
qed

lemma ff_mask: "(0xFF::u16) = mask 8" by (simp add: mask_eq_exp_minus_1)

lemma packed_bytes: "packed (hi_byte r) (lo_byte r) = r"
proof -
  have "packed (hi_byte r) (lo_byte r) = push_bit 8 (ucast (hi_byte r)) OR ucast (lo_byte r)"
    by (simp add: packed_def word_wi_log_defs(3) [symmetric] push_bit_eq_mult)
  also have "\<dots> = r"
    unfolding hi_byte_def lo_byte_def ff_mask
    by (rule bit_word_eqI) (auto simp: bit_simps)
  finally show ?thesis .
qed

lemma unat_won16: "k < 65536 \<Longrightarrow> unat (word_of_nat k :: u16) = k"
  by (simp add: unat_of_nat)

lemma unat_u16_bound: "unat (c::u16) < 65536"
  using unsigned_less [of c, where 'a=nat] by simp

section \<open>Register reads\<close>

lemmas wire_defs = Wire_beginTransmission_def Wire_write_def Wire_endTransmission_def
  Wire_requestFrom_def Wire_available_def Wire_read_def

lemmas run_defs = readAddr_unsigned_def readAddr_signed_def writeEEPROM_def wire_defs delay_def
  init_state_def Let_def hi_byte_def lo_byte_def MLX90642_ADDR_def

lemma readAddr_unsigned_nack:
  assumes "transmit env MLX90642_ADDR [hi_byte a, lo_byte a] False (device s) = (st, d1)"
    and "st \<noteq> 0"
  shows "readAddr_unsigned env a s =
    (0xFFFF, s\<lparr>txAddress := MLX90642_ADDR, txBuffer := [], device := d1,
               trace := trace s @ [Transmit MLX90642_ADDR [hi_byte a, lo_byte a] False st]\<rparr>)"
  using assms by (auto simp: readAddr_unsigned_def wire_defs Let_def)

lemma readAddr_unsigned_short:
  assumes "transmit env MLX90642_ADDR [hi_byte a, lo_byte a] False (device s) = (0, d1)"
    and "request env MLX90642_ADDR 2 d1 = (bs, d2)"
    and "length (take 2 bs) < 2"
  shows "readAddr_unsigned env a s =
    (0xFFFF, s\<lparr>txAddress := MLX90642_ADDR, txBuffer := [], rxBuffer := take 2 bs, device := d2,
               trace := trace s @ [Transmit MLX90642_ADDR [hi_byte a, lo_byte a] False 0,
                                   Request MLX90642_ADDR 2 (take 2 bs)]\<rparr>)"
  using assms by (auto simp: readAddr_unsigned_def wire_defs Let_def)

lemma readAddr_unsigned_data:
  assumes "transmit env MLX90642_ADDR [hi_byte a, lo_byte a] False (device s) = (0, d1)"
    and "request env MLX90642_ADDR 2 d1 = (bs, d2)"
    and "take 2 bs = [b0, b1]"
  shows "readAddr_unsigned env a s =
    (packed b0 b1, s\<lparr>txAddress := MLX90642_ADDR, txBuffer := [], rxBuffer := [], device := d2,
               trace := trace s @ [Transmit MLX90642_ADDR [hi_byte a, lo_byte a] False 0,
                                   Request MLX90642_ADDR 2 [b0, b1]]\<rparr>)"
  using assms by (simp add: readAddr_unsigned_def wire_defs packed_def pack_word Let_def)

lemma take2_cases:
  "length (take 2 bs) < 2 \<or> (\<exists>b0 b1. take 2 bs = [b0, b1])"
  by (cases bs; simp; cases "tl bs"; simp)

lemma readAddr_unsigned_cases [case_names nack short data]:
  obtains
    (nack) st d1 where
      "addr_phase env a s = (st, d1)" "st \<noteq> 0"
      "readAddr_unsigned env a s =
        (0xFFFF, s\<lparr>txAddress := MLX90642_ADDR, txBuffer := [], device := d1,
               trace := trace s @ [Transmit MLX90642_ADDR [hi_byte a, lo_byte a] False st]\<rparr>)"
  | (short) d1 bs d2 where
      "addr_phase env a s = (0, d1)" "request env MLX90642_ADDR 2 d1 = (bs, d2)"
      "length (take 2 bs) < 2"
      "readAddr_unsigned env a s =
        (0xFFFF, s\<lparr>txAddress := MLX90642_ADDR, txBuffer := [], rxBuffer := take 2 bs, device := d2,
               trace := trace s @ [Transmit MLX90642_ADDR [hi_byte a, lo_byte a] False 0,
                                   Request MLX90642_ADDR 2 (take 2 bs)]\<rparr>)"
  | (data) d1 bs d2 b0 b1 where
      "addr_phase env a s = (0, d1)" "request env MLX90642_ADDR 2 d1 = (bs, d2)"
      "take 2 bs = [b0, b1]"
      "readAddr_unsigned env a s =
        (packed b0 b1, s\<lparr>txAddress := MLX90642_ADDR, txBuffer := [], rxBuffer := [], device := d2,
               trace := trace s @ [Transmit MLX90642_ADDR [hi_byte a, lo_byte a] False 0,
                                   Request MLX90642_ADDR 2 [b0, b1]]\<rparr>)"
proof -
  obtain st d1 where t: "transmit env MLX90642_ADDR [hi_byte a, lo_byte a] False (device s) = (st, d1)"
    by (cases "transmit env MLX90642_ADDR [hi_byte a, lo_byte a] False (device s)")
  obtain bs d2 where r: "request env MLX90642_ADDR 2 d1 = (bs, d2)"
    by (cases "request env MLX90642_ADDR 2 d1")
  show thesis
  proof (cases "st = 0")
    case False
    with t readAddr_unsigned_nack [OF t False] show thesis
      by (intro nack [of st d1]) (simp_all add: addr_phase_def)
  next
    case True
    note t0 = t [unfolded True]
    from take2_cases [of bs] show thesis
    proof
      assume l: "length (take 2 bs) < 2"
      from readAddr_unsigned_short [OF t0 r l] t0 r l show thesis
        by (intro short [of d1 bs d2]) (simp_all add: addr_phase_def)
    next
      assume "\<exists>b0 b1. take 2 bs = [b0, b1]"
      then obtain b0 b1 where b: "take 2 bs = [b0, b1]" by blast
      from readAddr_unsigned_data [OF t0 r b] t0 r b show thesis
        by (intro data [of d1 bs d2 b0 b1]) (simp_all add: addr_phase_def)
    qed
  qed
qed

lemma readAddr_signed_eq:
  "readAddr_signed env a s = readAddr_unsigned env a s"
  by (auto simp: readAddr_unsigned_def readAddr_signed_def Let_def pack_word split: prod.splits)

lemma readAddr_unsigned_fail:
  assumes "read_failed env a s" shows "fst (readAddr_unsigned env a s) = 0xFFFF"
proof -
  obtain st d1 where t: "transmit env MLX90642_ADDR [hi_byte a, lo_byte a] False (device s) = (st, d1)"
    by (cases "transmit env MLX90642_ADDR [hi_byte a, lo_byte a] False (device s)")
  obtain bs d2 where r: "request env MLX90642_ADDR 2 d1 = (bs, d2)"
    by (cases "request env MLX90642_ADDR 2 d1")
  show ?thesis
  proof (cases "st = 0")
    case False
    then show ?thesis by (simp add: readAddr_unsigned_nack [OF t])
  next
    case True
    with assms t r have "length (take 2 bs) < 2"
      by (simp add: read_failed_def addr_phase_def response_def)
    with t r True show ?thesis by (simp add: readAddr_unsigned_short)
  qed
qed

lemma readAddr_unsigned_ok:
  assumes "\<not> read_failed env a s"
  shows "length (response env a s) = 2"
    and "fst (readAddr_unsigned env a s) = packed (response env a s ! 0) (response env a s ! 1)"
proof -
  obtain st d1 where t: "transmit env MLX90642_ADDR [hi_byte a, lo_byte a] False (device s) = (st, d1)"
    by (cases "transmit env MLX90642_ADDR [hi_byte a, lo_byte a] False (device s)")
  obtain bs d2 where r: "request env MLX90642_ADDR 2 d1 = (bs, d2)"
    by (cases "request env MLX90642_ADDR 2 d1")
  from assms t r have st: "st = 0" and len: "\<not> length (take 2 bs) < 2"
    and resp: "response env a s = take 2 bs"
    by (simp_all add: read_failed_def addr_phase_def response_def)
  from len take2_cases [of bs] obtain b0 b1 where b: "take 2 bs = [b0, b1]" by blast
  show "length (response env a s) = 2" by (simp add: resp b)
  from t r st b show "fst (readAddr_unsigned env a s) = packed (response env a s ! 0) (response env a s ! 1)"
    by (simp add: readAddr_unsigned_data resp)
qed

lemma readAddr_signed_failed:
  "read_failed env a s \<Longrightarrow> sint (fst (readAddr_signed env a s)) = - 1"
  by (simp add: readAddr_signed_eq readAddr_unsigned_fail)

lemma readAddr_unsigned_trace:
  "trace (snd (readAddr_unsigned env a s)) = trace s @ read_events env a s"
  by (cases env a s rule: readAddr_unsigned_cases)
    (simp_all add: read_events_def response_def)

lemma readAddr_unsigned_lastProgress:
  "lastProgress (snd (readAddr_unsigned env a s)) = lastProgress s"
  by (cases env a s rule: readAddr_unsigned_cases) simp_all

subsection \<open>The two transports\<close>

lemma mock_simps [simp]:
  "transmit mock_env a bs stop ([], rs) = (0, ([], rs))"
  "transmit mock_env a bs stop (st # sts, rs) = (st, (sts, rs))"
  "request mock_env a n (sts, []) = ([], (sts, []))"
  "request mock_env a n (sts, r # rs) = (r, (sts, rs))"
  "wait mock_env ms m = m"
  by (simp_all add: mock_env_def)

lemma mock_read:
  assumes "device s = ([], word_bytes r # rest)"
  shows "readAddr_unsigned mock_env a s =
    (r, s\<lparr>txAddress := MLX90642_ADDR, txBuffer := [], rxBuffer := [], device := ([], rest),
          trace := trace s @ [Transmit MLX90642_ADDR [hi_byte a, lo_byte a] False 0,
                              Request MLX90642_ADDR 2 [hi_byte r, lo_byte r]]\<rparr>)"
proof -
  have t: "transmit mock_env MLX90642_ADDR [hi_byte a, lo_byte a] False (device s)
      = (0, ([], word_bytes r # rest))"
    by (simp add: assms)
  have q: "request mock_env MLX90642_ADDR 2 ([], word_bytes r # rest) = (word_bytes r, ([], rest))"
    by simp
  have k: "take 2 (word_bytes r) = [hi_byte r, lo_byte r]" by (simp add: word_bytes_def)
  from readAddr_unsigned_data [OF t q k] show ?thesis by (simp add: packed_bytes)
qed

lemma const_env_simps [simp]:
  "transmit (const_env w) a bs stop d = (0, d)"
  "request (const_env w) a n d = (word_bytes w, d)"
  "wait (const_env w) ms d = d"
  by (simp_all add: const_env_def)

lemma const_env_read: "fst (readAddr_signed (const_env w) a s) = w"
proof -
  have k: "take 2 (word_bytes w) = [hi_byte w, lo_byte w]" by (simp add: word_bytes_def)
  have "fst (readAddr_unsigned (const_env w) a s) = packed (hi_byte w) (lo_byte w)"
    by (subst readAddr_unsigned_data [where ?b0.0 = "hi_byte w" and ?b1.0 = "lo_byte w"
          and bs = "word_bytes w" and ?d1.0 = "device s" and ?d2.0 = "device s"])
      (simp_all add: k)
  then show ?thesis by (simp add: readAddr_signed_eq packed_bytes)
qed

subsection \<open>Sentinel and packing\<close>

text \<open>
  Claim C3, as amended. When the address phase reports a non-zero status or fewer than two
  response bytes are available, \<open>readAddr_unsigned\<close> returns \<open>0xFFFF\<close> and
  \<open>readAddr_signed\<close> returns -1. Otherwise exactly two response bytes are available,
  \<open>readAddr_unsigned\<close> returns them packed most significant byte first, and
  \<open>readAddr_signed\<close> returns the same 16 bits read as two's complement. Both functions
  leave the same state behind: they perform the same bus sequence.
\<close>

theorem readAddr_sentinel_and_packing:
  "(read_failed env a s \<longrightarrow>
      fst (readAddr_unsigned env a s) = 0xFFFF \<and> sint (fst (readAddr_signed env a s)) = - 1)
   \<and> (\<not> read_failed env a s \<longrightarrow>
      length (response env a s) = 2
      \<and> uint (fst (readAddr_unsigned env a s))
          = 256 * uint (response env a s ! 0) + uint (response env a s ! 1)
      \<and> sint (fst (readAddr_signed env a s))
          = as_signed16 (256 * uint (response env a s ! 0) + uint (response env a s ! 1)))
   \<and> snd (readAddr_signed env a s) = snd (readAddr_unsigned env a s)"
proof (intro conjI impI)
  assume f: "read_failed env a s"
  then show "fst (readAddr_unsigned env a s) = 0xFFFF" by (rule readAddr_unsigned_fail)
  then show "sint (fst (readAddr_signed env a s)) = - 1" by (simp add: readAddr_signed_eq)
next
  assume ok: "\<not> read_failed env a s"
  then show "length (response env a s) = 2" by (rule readAddr_unsigned_ok(1))
  from readAddr_unsigned_ok(2) [OF ok]
  show u: "uint (fst (readAddr_unsigned env a s))
          = 256 * uint (response env a s ! 0) + uint (response env a s ! 1)"
    by (simp only: packed_def pack_uint)
  show "sint (fst (readAddr_signed env a s))
          = as_signed16 (256 * uint (response env a s ! 0) + uint (response env a s ! 1))"
    by (simp only: readAddr_signed_eq sint16 u)
next
  show "snd (readAddr_signed env a s) = snd (readAddr_unsigned env a s)"
    by (simp add: readAddr_signed_eq)
qed

text \<open>
  The sentinel is not returned only on failure: a device that answers the read of the
  progress register with the two bytes \<open>0xFF 0xFF\<close> makes \<open>readAddr_unsigned\<close> return
  \<open>0xFFFF\<close> although the address phase succeeded and two bytes were available.
\<close>

theorem readAddr_unsigned_sentinel_iff_counterexample:
  "\<not> (fst (readAddr_unsigned mock_env 0x3C10 (init_state ([], [[0xFF, 0xFF]]))) = 0xFFFF
       \<longleftrightarrow> read_failed mock_env 0x3C10 (init_state ([], [[0xFF, 0xFF]])))"
  by (simp add: readAddr_unsigned_def wire_defs read_failed_def addr_phase_def response_def
      init_state_def Let_def)

theorem readAddr_sentinel_and_packing_witness:
  "read_failed mock_env 0x3A2C (init_state ([2], []))
   \<and> fst (readAddr_unsigned mock_env 0x3A2C (init_state ([2], []))) = 0xFFFF
   \<and> sint (fst (readAddr_signed mock_env 0x3A2C (init_state ([2], [])))) = - 1
   \<and> read_failed mock_env 0x3A2C (init_state ([], [[0x0D]]))
   \<and> fst (readAddr_unsigned mock_env 0x3A2C (init_state ([], [[0x0D]]))) = 0xFFFF
   \<and> \<not> read_failed mock_env 0x3A2C (init_state ([], [[0xF2, 0xE3]]))
   \<and> uint (fst (readAddr_unsigned mock_env 0x3A2C (init_state ([], [[0xF2, 0xE3]])))) = 0xF2E3
   \<and> sint (fst (readAddr_signed mock_env 0x3A2C (init_state ([], [[0xF2, 0xE3]])))) = - 3357"
proof -
  have f1: "read_failed mock_env 0x3A2C (init_state ([2], []))"
    by (simp add: read_failed_def addr_phase_def init_state_def)
  have f2: "read_failed mock_env 0x3A2C (init_state ([], [[0x0D]]))"
    by (simp add: read_failed_def addr_phase_def response_def init_state_def)
  have ok: "\<not> read_failed mock_env 0x3A2C (init_state ([], [[0xF2, 0xE3]]))"
    by (simp add: read_failed_def addr_phase_def response_def init_state_def)
  have r: "response mock_env 0x3A2C (init_state ([], [[0xF2, 0xE3]])) = [0xF2, 0xE3]"
    by (simp add: addr_phase_def response_def init_state_def)
  show ?thesis
    using f1 f2 ok
      readAddr_sentinel_and_packing [of mock_env "0x3A2C" "init_state ([2], [])"]
      readAddr_sentinel_and_packing [of mock_env "0x3A2C" "init_state ([], [[0x0D]])"]
      readAddr_sentinel_and_packing [of mock_env "0x3A2C" "init_state ([], [[0xF2, 0xE3]])"]
    by (simp add: r as_signed16_def)
qed

section \<open>Pixel addresses\<close>

text \<open>
  Claim C4. For every pixel index below 768, \<open>pix_addr\<close> is the frame base \<open>0x342C\<close> plus
  twice the index, an even address; for every index from 768 on it is the error value 0.
  \<open>pix_addr\<close> takes no bus state and returns none: it makes no bus access.
\<close>

theorem pix_addr_in_frame:
  "(uint pxl < 768 \<longrightarrow> uint (pix_addr pxl) = 0x342C + 2 * uint pxl \<and> even (uint (pix_addr pxl)))
   \<and> (768 \<le> uint pxl \<longrightarrow> pix_addr pxl = 0)"
proof (intro conjI impI)
  assume a: "uint pxl < 768"
  have "0 \<le> uint pxl" by simp
  with a have "0 \<le> 13356 + uint pxl * 2" "13356 + uint pxl * 2 < 65536" by simp_all
  then have "uint (word_of_int (13356 + uint pxl * 2) :: u16) = 13356 + uint pxl * 2"
    by (rule uint_woi16)
  with a show u: "uint (pix_addr pxl) = 0x342C + 2 * uint pxl"
    by (simp only: pix_addr_def NUM_PIXELS_def FRAME_ADDR_def) simp
  show "even (uint (pix_addr pxl))" unfolding u by simp
next
  assume "768 \<le> uint pxl"
  then show "pix_addr pxl = 0" by (simp add: pix_addr_def NUM_PIXELS_def)
qed

theorem pix_addr_in_frame_witness:
  "uint (pix_addr 0) = 0x342C \<and> uint (pix_addr 767) = 0x3A2A \<and> even (uint (pix_addr 767))
   \<and> pix_addr 768 = 0 \<and> pix_addr 0xFFFF = 0"
  using pix_addr_in_frame [of 0] pix_addr_in_frame [of 767] pix_addr_in_frame [of 768]
    pix_addr_in_frame [of "0xFFFF"]
  by simp

section \<open>Refresh rate\<close>

subsection \<open>The EEPROM write and the rate codes\<close>

lemma writeEEPROM_fst:
  "fst (writeEEPROM env a v s) \<longleftrightarrow> write_status env a v s = 0"
  by (simp add: writeEEPROM_def wire_defs write_status_def Let_def split: prod.splits)

lemma writeEEPROM_trace:
  "trace (snd (writeEEPROM env a v s)) = trace s @ write_events env a v s"
  by (auto simp: writeEEPROM_def wire_defs write_status_def write_events_def delay_def Let_def
      split: prod.splits)

lemma delay_trace: "trace (delay env ms s) = trace s @ [Delay ms]"
  by (simp add: delay_def)

lemma valid_rate_iff: "\<not> (rate < 2 \<or> rate > 5) \<longleftrightarrow> rate \<in> {2, 3, 4, 5 :: u8}"
proof
  assume "\<not> (rate < 2 \<or> rate > 5)"
  then have "2 \<le> unat rate \<and> unat rate \<le> 5"
    by (simp add: word_less_nat_alt not_less)
  then have "unat rate = 2 \<or> unat rate = 3 \<or> unat rate = 4 \<or> unat rate = 5" by arith
  moreover have "rate = word_of_nat (unat rate)" by simp
  ultimately have "rate = word_of_nat 2 \<or> rate = word_of_nat 3 \<or> rate = word_of_nat 4
      \<or> rate = word_of_nat 5" by metis
  then show "rate \<in> {2, 3, 4, 5}" by simp
next
  assume "rate \<in> {2, 3, 4, 5}"
  then show "\<not> (rate < 2 \<or> rate > 5)" by auto
qed

subsection \<open>The updated configuration word\<close>

lemma seven_mask: "(7::u16) = mask 3" by (simp add: mask_eq_exp_minus_1)

lemma clear_low_bits_or: "(c AND NOT 7) OR (r::u16) = push_bit 3 (drop_bit 3 c) OR r"
  unfolding seven_mask
  by (rule bit_word_eqI) (auto simp: bit_simps)

lemma rate_low_bits: "rate \<in> {2, 3, 4, 5 :: u8} \<Longrightarrow> take_bit 3 (ucast rate :: u16) = ucast rate"
  by auto

lemma shifted_or_is_add:
  assumes "take_bit 3 (r::u16) = r"
  shows "push_bit 3 (drop_bit 3 c) OR r = push_bit 3 (drop_bit 3 (c::u16)) + r"
proof (rule disjunctive_add [symmetric])
  fix n
  have "bit r n \<longleftrightarrow> bit (take_bit 3 r) n" by (simp add: assms)
  then show "\<not> bit (push_bit 3 (drop_bit 3 c)) n \<or> \<not> bit r n"
    by (auto simp: bit_simps)
qed

lemma updated_config_word: "updated_config c rate = 8 * (c div 8) + ucast rate"
proof -
  have "(word_of_nat (unat c div 8) :: u16) = c div 8"
    using word_arith_nat_div [of c 8] by simp
  moreover have "(word_of_nat (unat rate) :: u16) = ucast rate"
    by simp
  ultimately show ?thesis by (simp add: updated_config_def)
qed

lemma config_update:
  assumes "rate \<in> {2, 3, 4, 5}"
  shows "(c AND NOT 7) OR ucast rate = updated_config c rate"
proof -
  have "(c AND NOT 7) OR ucast rate = push_bit 3 (drop_bit 3 c) + ucast rate"
    by (simp only: clear_low_bits_or shifted_or_is_add [OF rate_low_bits [OF assms]])
  also have "\<dots> = 8 * (c div 8) + ucast rate"
    by (simp add: push_bit_eq_mult drop_bit_eq_div)
  finally show ?thesis by (simp only: updated_config_word)
qed

lemma unat_updated_config:
  assumes "rate \<in> {2, 3, 4, 5}"
  shows "unat (updated_config c rate) = 8 * (unat c div 8) + unat rate"
proof -
  have "unat rate \<le> 5" using assms by auto
  moreover have "unat c < 65536" by (rule unat_u16_bound)
  ultimately have "8 * (unat c div 8) + unat rate < 65536" by arith
  then show ?thesis
    unfolding updated_config_def by (rule unat_won16)
qed

lemma updated_config_bits:
  assumes "rate \<in> {2, 3, 4, 5}"
  shows "unat (updated_config c rate) mod 8 = unat rate"
    and "unat (updated_config c rate) div 8 = unat c div 8"
proof -
  have "unat rate < 8" using assms by auto
  then show "unat (updated_config c rate) mod 8 = unat rate"
    and "unat (updated_config c rate) div 8 = unat c div 8"
    by (simp_all add: unat_updated_config [OF assms])
qed

lemma and7_mod8: "(c2 AND 7 = ucast rate) \<longleftrightarrow> unat (c2::u16) mod 8 = unat (rate::u8)"
  if "rate \<in> {2, 3, 4, 5}"
proof -
  have "c2 AND 7 = take_bit 3 c2" by (simp only: seven_mask take_bit_eq_mask)
  then have "unat (c2 AND 7) = take_bit 3 (unat c2)" by (simp only: unsigned_take_bit_eq)
  then have "unat (c2 AND 7) = unat c2 mod 8" by (simp add: take_bit_eq_mod)
  moreover have "unat (ucast rate :: u16) = unat rate" using that by auto
  ultimately show ?thesis by (metis word_unat_eq_iff)
qed

subsection \<open>The run of setRefreshRate\<close>

lemma setRefreshRate_invalid:
  "rate \<notin> {2, 3, 4, 5} \<Longrightarrow> setRefreshRate env rate s = (False, s)"
  using valid_rate_iff [of rate] by (simp add: setRefreshRate_def)

lemma setRefreshRate_valid:
  assumes "rate \<in> {2, 3, 4, 5}"
  shows "setRefreshRate env rate s =
     (if fst (cfg_read1 env s) = 0xFFFF then (False, snd (cfg_read1 env s))
      else if \<not> fst (cfg_write env rate s) then (False, snd (cfg_write env rate s))
      else if fst (cfg_read2 env rate s) = 0xFFFF then (False, snd (cfg_read2 env rate s))
      else (fst (cfg_read2 env rate s) AND 7 = ucast rate, snd (cfg_read2 env rate s)))"
proof -
  from assms have v: "\<not> (rate < 2 \<or> rate > 5)" by (simp only: valid_rate_iff)
  show ?thesis
    unfolding setRefreshRate_def cfg_read2_def cfg_write_def cfg_read1_def
    by (simp only: v if_False Let_def config_update [OF assms] split_beta)
qed

lemma read_events_cfg_no_write:
  "e \<in> set (read_events env 0x11F0 s) \<Longrightarrow> \<not> eeprom_write_event e"
  by (auto simp: read_events_def hi_byte_def lo_byte_def split: if_splits)

text \<open>
  Claim C6. For every rate code outside 2, 3, 4, 5, \<open>setRefreshRate\<close> returns failure and
  the state (buffers, device, bus log) is the one it was called in: no transaction was
  issued.
\<close>

theorem setRefreshRate_rejects_invalid_code:
  "rate \<notin> {2, 3, 4, 5} \<Longrightarrow> setRefreshRate env rate s = (False, s)"
  by (rule setRefreshRate_invalid)

theorem setRefreshRate_rejects_invalid_code_witness:
  "setRefreshRate mock_env 6 (init_state ([], [[0, 5]])) = (False, init_state ([], [[0, 5]]))
   \<and> setRefreshRate mock_env 0 (init_state ([], [[0, 5]])) = (False, init_state ([], [[0, 5]]))
   \<and> setRefreshRate mock_env 1 (init_state ([], [[0, 5]])) = (False, init_state ([], [[0, 5]]))
   \<and> trace (snd (setRefreshRate mock_env 255 (init_state ([], [[0, 5]])))) = []"
  using setRefreshRate_rejects_invalid_code [of 6 mock_env "init_state ([], [[0, 5]])"]
    setRefreshRate_rejects_invalid_code [of 0 mock_env "init_state ([], [[0, 5]])"]
    setRefreshRate_rejects_invalid_code [of 1 mock_env "init_state ([], [[0, 5]])"]
    setRefreshRate_rejects_invalid_code [of 255 mock_env "init_state ([], [[0, 5]])"]
  by (simp add: init_state_def)

text \<open>
  Claim C1. For a valid rate code, \<open>setRefreshRate\<close> reads the configuration word and fails
  if it is \<open>0xFFFF\<close>; otherwise it writes the word whose low 3 bits are the rate code and
  whose upper 13 bits are those of the word read, and fails if the write fails; otherwise
  it waits 20 ms and reads the word again, fails if that is \<open>0xFFFF\<close>, and succeeds exactly
  when the low 3 bits of the word read back are the rate code. The bus log grows by the
  events of the read, of the write and of the delayed second read, in this order.
\<close>

theorem setRefreshRate_read_modify_write_verify:
  assumes "rate \<in> {2, 3, 4, 5}"
  shows "setRefreshRate env rate s =
     (if fst (cfg_read1 env s) = 0xFFFF then (False, snd (cfg_read1 env s))
      else if \<not> fst (cfg_write env rate s) then (False, snd (cfg_write env rate s))
      else if fst (cfg_read2 env rate s) = 0xFFFF then (False, snd (cfg_read2 env rate s))
      else (unat (fst (cfg_read2 env rate s)) mod 8 = unat rate, snd (cfg_read2 env rate s)))
   \<and> unat (updated_config c rate) mod 8 = unat rate
   \<and> unat (updated_config c rate) div 8 = unat c div 8
   \<and> trace (snd (cfg_read1 env s)) = trace s @ read_events env 0x11F0 s
   \<and> (fst (cfg_write env rate s) \<longleftrightarrow>
        write_status env 0x11F0 (updated_config (fst (cfg_read1 env s)) rate)
          (snd (cfg_read1 env s)) = 0)
   \<and> trace (snd (cfg_write env rate s)) =
        trace (snd (cfg_read1 env s))
        @ write_events env 0x11F0 (updated_config (fst (cfg_read1 env s)) rate)
            (snd (cfg_read1 env s))
   \<and> trace (snd (cfg_read2 env rate s)) =
        trace (snd (cfg_write env rate s))
        @ Delay 20 # read_events env 0x11F0 (delay env 20 (snd (cfg_write env rate s)))"
proof (intro conjI)
  show "setRefreshRate env rate s =
     (if fst (cfg_read1 env s) = 0xFFFF then (False, snd (cfg_read1 env s))
      else if \<not> fst (cfg_write env rate s) then (False, snd (cfg_write env rate s))
      else if fst (cfg_read2 env rate s) = 0xFFFF then (False, snd (cfg_read2 env rate s))
      else (unat (fst (cfg_read2 env rate s)) mod 8 = unat rate, snd (cfg_read2 env rate s)))"
    by (simp only: setRefreshRate_valid [OF assms] and7_mod8 [OF assms])
  show "unat (updated_config c rate) mod 8 = unat rate"
    by (rule updated_config_bits(1) [OF assms])
  show "unat (updated_config c rate) div 8 = unat c div 8"
    by (rule updated_config_bits(2) [OF assms])
  show "trace (snd (cfg_read1 env s)) = trace s @ read_events env 0x11F0 s"
    by (simp only: cfg_read1_def readAddr_unsigned_trace)
  show "fst (cfg_write env rate s) \<longleftrightarrow>
        write_status env 0x11F0 (updated_config (fst (cfg_read1 env s)) rate)
          (snd (cfg_read1 env s)) = 0"
    by (simp only: cfg_write_def writeEEPROM_fst)
  show "trace (snd (cfg_write env rate s)) =
        trace (snd (cfg_read1 env s))
        @ write_events env 0x11F0 (updated_config (fst (cfg_read1 env s)) rate)
            (snd (cfg_read1 env s))"
    by (simp only: cfg_write_def writeEEPROM_trace)
  show "trace (snd (cfg_read2 env rate s)) =
        trace (snd (cfg_write env rate s))
        @ Delay 20 # read_events env 0x11F0 (delay env 20 (snd (cfg_write env rate s)))"
    by (simp add: cfg_read2_def readAddr_unsigned_trace delay_trace)
qed

theorem setRefreshRate_read_modify_write_verify_witness:
  "fst (setRefreshRate mock_env 4 (init_state ([], [[0x00, 0x05], [0x00, 0x04]])))
   \<and> trace (snd (setRefreshRate mock_env 4 (init_state ([], [[0x00, 0x05], [0x00, 0x04]])))) =
       [Transmit 0x66 [0x11, 0xF0] False 0, Request 0x66 2 [0x00, 0x05],
        Transmit 0x66 [0x3A, 0x2E, 0x11, 0xF0, 0x00, 0x04] True 0, Delay 10,
        Delay 20,
        Transmit 0x66 [0x11, 0xF0] False 0, Request 0x66 2 [0x00, 0x04]]
   \<and> updated_config 0xABCD 4 = 0xABCC
   \<and> \<not> fst (setRefreshRate mock_env 4 (init_state ([], [[0x00, 0x05]])))
   \<and> trace (snd (setRefreshRate mock_env 4 (init_state ([], [[0x00, 0x05]])))) =
       [Transmit 0x66 [0x11, 0xF0] False 0, Request 0x66 2 [0x00, 0x05],
        Transmit 0x66 [0x3A, 0x2E, 0x11, 0xF0, 0x00, 0x04] True 0, Delay 10,
        Delay 20,
        Transmit 0x66 [0x11, 0xF0] False 0, Request 0x66 2 []]"
proof -
  let ?s = "init_state ([], [[0x00, 0x05], [0x00, 0x04 :: u8]]) :: mock state"
  let ?t = "init_state ([], [[0x00, 0x05 :: u8]]) :: mock state"
  have v: "(4::u8) \<in> {2, 3, 4, 5}" by simp
  have u: "updated_config 5 4 = 4" "updated_config 0xABCD 4 = 0xABCC"
    by (simp_all add: updated_config_def)
  have r1: "fst (cfg_read1 mock_env ?s) = 5" "fst (cfg_read1 mock_env ?t) = 5"
    by (simp_all add: cfg_read1_def run_defs)
  have w: "fst (cfg_write mock_env 4 ?s)" "fst (cfg_write mock_env 4 ?t)"
    by (simp_all add: cfg_write_def cfg_read1_def run_defs)
  have r2: "fst (cfg_read2 mock_env 4 ?s) = 4" "fst (cfg_read2 mock_env 4 ?t) = 0xFFFF"
    by (simp_all add: cfg_read2_def cfg_write_def cfg_read1_def run_defs)
  have t1: "trace (snd (cfg_read2 mock_env 4 ?s)) =
       [Transmit 0x66 [0x11, 0xF0] False 0, Request 0x66 2 [0x00, 0x05],
        Transmit 0x66 [0x3A, 0x2E, 0x11, 0xF0, 0x00, 0x04] True 0, Delay 10,
        Delay 20,
        Transmit 0x66 [0x11, 0xF0] False 0, Request 0x66 2 [0x00, 0x04]]"
    by (simp add: cfg_read2_def cfg_write_def cfg_read1_def run_defs u)
  have t2: "trace (snd (cfg_read2 mock_env 4 ?t)) =
       [Transmit 0x66 [0x11, 0xF0] False 0, Request 0x66 2 [0x00, 0x05],
        Transmit 0x66 [0x3A, 0x2E, 0x11, 0xF0, 0x00, 0x04] True 0, Delay 10,
        Delay 20,
        Transmit 0x66 [0x11, 0xF0] False 0, Request 0x66 2 []]"
    by (simp add: cfg_read2_def cfg_write_def cfg_read1_def run_defs u)
  from setRefreshRate_read_modify_write_verify [OF v, of mock_env ?s]
    setRefreshRate_read_modify_write_verify [OF v, of mock_env ?t]
  show ?thesis
    by (simp add: r1 w r2 t1 t2 u)
qed

text \<open>
  Claim C9. In every run where the rate code is valid and the initial read, the write and
  the verification read succeed, \<open>setRefreshRate\<close> returns true as soon as the word read
  back has the rate code in its low 3 bits, whatever its upper 13 bits are.
\<close>

theorem setRefreshRate_success_checks_rate_bits_only:
  assumes "rate \<in> {2, 3, 4, 5}"
    and "fst (cfg_read1 env s) \<noteq> 0xFFFF"
    and "fst (cfg_write env rate s)"
    and "fst (cfg_read2 env rate s) \<noteq> 0xFFFF"
    and "fst (cfg_read2 env rate s) AND 0x07 = ucast rate"
  shows "fst (setRefreshRate env rate s)"
  using assms(2-5) by (simp add: setRefreshRate_valid [OF assms(1)])

theorem setRefreshRate_success_checks_rate_bits_only_witness:
  "fst (setRefreshRate mock_env 4 (init_state ([], [[0x12, 0x35], [0xAB, 0xCC]])))
   \<and> updated_config 0x1235 4 = 0x1234
   \<and> fst (cfg_read2 mock_env 4 (init_state ([], [[0x12, 0x35], [0xAB, 0xCC]]))) = 0xABCC
   \<and> drop_bit 3 (0xABCC :: u16) \<noteq> drop_bit 3 (0x1234 :: u16)"
proof -
  let ?s = "init_state ([], [[0x12, 0x35], [0xAB, 0xCC :: u8]]) :: mock state"
  have v: "(4::u8) \<in> {2, 3, 4, 5}" by simp
  have u: "updated_config 0x1235 4 = 0x1234"
    by (simp add: updated_config_def)
  have r1: "fst (cfg_read1 mock_env ?s) \<noteq> 0xFFFF"
    by (simp add: cfg_read1_def run_defs)
  have w: "fst (cfg_write mock_env 4 ?s)"
    by (simp add: cfg_write_def cfg_read1_def run_defs)
  have r2: "fst (cfg_read2 mock_env 4 ?s) = 0xABCC"
    by (simp add: cfg_read2_def cfg_write_def cfg_read1_def run_defs)
  have r3: "fst (cfg_read2 mock_env 4 ?s) \<noteq> 0xFFFF" "fst (cfg_read2 mock_env 4 ?s) AND 0x07 = ucast (4::u8)"
    by (simp_all add: r2)
  have d: "drop_bit 3 (0xABCC :: u16) \<noteq> drop_bit 3 (0x1234 :: u16)"
    by (simp add: drop_bit_eq_div)
  from setRefreshRate_success_checks_rate_bits_only [OF v r1 w r3]
  show ?thesis by (simp add: u r2 d)
qed

text \<open>
  Claim C10. When the rate code is invalid, \<open>setRefreshRate\<close> returns false and leaves the
  state untouched. When the code is valid and the initial read of the configuration word
  yields \<open>0xFFFF\<close>, it returns false in the state that read left, and the bus log has
  grown by the events of that one read only, none of which is an EEPROM write command.
\<close>

theorem setRefreshRate_early_failure_issues_no_write:
  "(rate \<notin> {2, 3, 4, 5} \<longrightarrow> setRefreshRate env rate s = (False, s))
   \<and> (rate \<in> {2, 3, 4, 5} \<and> fst (readAddr_unsigned env 0x11F0 s) = 0xFFFF \<longrightarrow>
        setRefreshRate env rate s = (False, snd (readAddr_unsigned env 0x11F0 s))
        \<and> trace (snd (setRefreshRate env rate s)) = trace s @ read_events env 0x11F0 s
        \<and> (\<forall>e \<in> set (read_events env 0x11F0 s). \<not> eeprom_write_event e))"
proof (intro conjI impI)
  assume "rate \<notin> {2, 3, 4, 5}"
  then show "setRefreshRate env rate s = (False, s)" by (rule setRefreshRate_invalid)
next
  assume a: "rate \<in> {2, 3, 4, 5} \<and> fst (readAddr_unsigned env 0x11F0 s) = 0xFFFF"
  then show r: "setRefreshRate env rate s = (False, snd (readAddr_unsigned env 0x11F0 s))"
    by (simp add: setRefreshRate_valid cfg_read1_def)
  show "trace (snd (setRefreshRate env rate s)) = trace s @ read_events env 0x11F0 s"
    by (simp only: r snd_conv readAddr_unsigned_trace)
  show "\<forall>e \<in> set (read_events env 0x11F0 s). \<not> eeprom_write_event e"
    using read_events_cfg_no_write by blast
qed

theorem setRefreshRate_early_failure_issues_no_write_witness:
  "setRefreshRate mock_env 7 (init_state ([], [[0, 5]])) = (False, init_state ([], [[0, 5]]))
   \<and> \<not> fst (setRefreshRate mock_env 4 (init_state ([2], [[0, 5]])))
   \<and> trace (snd (setRefreshRate mock_env 4 (init_state ([2], [[0, 5]]))))
       = [Transmit 0x66 [0x11, 0xF0] False 2]
   \<and> \<not> fst (setRefreshRate mock_env 4 (init_state ([], [[0xFF, 0xFF], [0, 4]])))
   \<and> trace (snd (setRefreshRate mock_env 4 (init_state ([], [[0xFF, 0xFF], [0, 4]]))))
       = [Transmit 0x66 [0x11, 0xF0] False 0, Request 0x66 2 [0xFF, 0xFF]]"
proof -
  let ?s = "init_state ([2], [[0, 5 :: u8]]) :: mock state"
  let ?t = "init_state ([], [[0xFF, 0xFF], [0, 4 :: u8]]) :: mock state"
  have v: "(4::u8) \<in> {2, 3, 4, 5}" "(7::u8) \<notin> {2, 3, 4, 5}" by simp_all
  have r: "fst (readAddr_unsigned mock_env 0x11F0 ?s) = 0xFFFF"
    "fst (readAddr_unsigned mock_env 0x11F0 ?t) = 0xFFFF"
    by (simp_all add: run_defs)
  have e: "read_events mock_env 0x11F0 ?s = [Transmit 0x66 [0x11, 0xF0] False 2]"
    "read_events mock_env 0x11F0 ?t = [Transmit 0x66 [0x11, 0xF0] False 0, Request 0x66 2 [0xFF, 0xFF]]"
    by (simp_all add: read_events_def addr_phase_def response_def run_defs)
  have ti: "\<And>d::mock. trace (init_state d) = []" by (simp add: init_state_def)
  from setRefreshRate_early_failure_issues_no_write [of 7 mock_env "init_state ([], [[0, 5]])"]
    setRefreshRate_early_failure_issues_no_write [of 4 mock_env ?s]
    setRefreshRate_early_failure_issues_no_write [of 4 mock_env ?t]
  show ?thesis
    by (auto simp: v r e ti)
qed

section \<open>Frame synchronisation\<close>

lemma isNewDataAvailable_eq:
  "isNewDataAvailable env s =
     (fst (readAddr_unsigned env 0x3C10 s) < lastProgress s,
      (snd (readAddr_unsigned env 0x3C10 s))\<lparr>lastProgress := fst (readAddr_unsigned env 0x3C10 s)\<rparr>)"
  by (simp add: isNewDataAvailable_def Let_def split_beta readAddr_unsigned_lastProgress)

lemma poll_mock:
  "device s = ([], map word_bytes rs) \<Longrightarrow>
   fst (poll mock_env (length rs) s) = wrap_detections (lastProgress s) rs"
proof (induction rs arbitrary: s)
  case Nil
  then show ?case by simp
next
  case (Cons r rs)
  from Cons.prems have d: "device s = ([], word_bytes r # map word_bytes rs)" by simp
  let ?s1 = "snd (isNewDataAvailable mock_env s)"
  have b: "fst (isNewDataAvailable mock_env s) = (r < lastProgress s)"
    and d1: "device ?s1 = ([], map word_bytes rs)"
    and l1: "lastProgress ?s1 = r"
    by (simp_all add: isNewDataAvailable_eq mock_read [OF d])
  from Cons.IH [OF d1] show ?case
    by (simp add: split_beta b l1)
qed

text \<open>
  Claim C2. The stored progress value starts at 0. Every call of \<open>isNewDataAvailable\<close>
  performs one read of register \<open>0x3C10\<close>, returns true exactly when the value read is
  strictly below the stored one, and stores the value read, also when the read failed and
  gave \<open>0xFFFF\<close>. So a call with stored value 0 returns false, polling a device that
  reports the readings \<open>rs\<close> gives the wrap detections of \<open>rs\<close>, and the readings
  10, 50, 90, 5, 40 from the initial state give false, false, false, true, false.
\<close>

theorem isNewDataAvailable_wrap_detection:
  "isNewDataAvailable env s =
     (fst (readAddr_unsigned env 0x3C10 s) < lastProgress s,
      (snd (readAddr_unsigned env 0x3C10 s))\<lparr>lastProgress := fst (readAddr_unsigned env 0x3C10 s)\<rparr>)
   \<and> trace (snd (isNewDataAvailable env s)) = trace s @ read_events env 0x3C10 s
   \<and> (read_failed env 0x3C10 s \<longrightarrow> lastProgress (snd (isNewDataAvailable env s)) = 0xFFFF)
   \<and> (lastProgress s = 0 \<longrightarrow> \<not> fst (isNewDataAvailable env s))
   \<and> lastProgress (init_state d) = 0
   \<and> (device m = ([], map word_bytes rs) \<longrightarrow>
        fst (poll mock_env (length rs) m) = wrap_detections (lastProgress m) rs)
   \<and> fst (poll mock_env 5 (init_state ([], map word_bytes [10, 50, 90, 5, 40])))
       = [False, False, False, True, False]"
proof (intro conjI impI)
  show e: "isNewDataAvailable env s =
     (fst (readAddr_unsigned env 0x3C10 s) < lastProgress s,
      (snd (readAddr_unsigned env 0x3C10 s))\<lparr>lastProgress := fst (readAddr_unsigned env 0x3C10 s)\<rparr>)"
    by (rule isNewDataAvailable_eq)
  show "trace (snd (isNewDataAvailable env s)) = trace s @ read_events env 0x3C10 s"
    by (simp add: e readAddr_unsigned_trace)
  show "lastProgress (snd (isNewDataAvailable env s)) = 0xFFFF" if "read_failed env 0x3C10 s"
    using readAddr_unsigned_fail [OF that] by (simp add: e)
  show "\<not> fst (isNewDataAvailable env s)" if "lastProgress s = 0"
    using that by (simp add: e)
  show "lastProgress (init_state d) = 0" by (simp add: init_state_def)
  show "fst (poll mock_env (length rs) m) = wrap_detections (lastProgress m) rs"
    if "device m = ([], map word_bytes rs)"
    using that by (rule poll_mock)
  let ?rs = "[10, 50, 90, 5, 40 :: u16]"
  let ?m = "init_state ([], map word_bytes ?rs) :: mock state"
  have "device ?m = ([], map word_bytes ?rs)" by (simp add: init_state_def)
  then have "fst (poll mock_env (length ?rs) ?m) = wrap_detections (lastProgress ?m) ?rs"
    by (rule poll_mock)
  moreover have "length ?rs = 5" by simp
  moreover have "wrap_detections (lastProgress ?m) ?rs = [False, False, False, True, False]"
    by (simp add: init_state_def)
  ultimately show "fst (poll mock_env 5 ?m) = [False, False, False, True, False]"
    by (simp only:)
qed

theorem isNewDataAvailable_wrap_detection_witness:
  "\<not> fst (isNewDataAvailable mock_env (init_state ([], [[0x12, 0x34]])))
   \<and> lastProgress (snd (isNewDataAvailable mock_env (init_state ([], [[0x12, 0x34]])))) = 0x1234
   \<and> read_failed mock_env 0x3C10 (init_state ([4], []))
   \<and> \<not> fst (isNewDataAvailable mock_env (init_state ([4], [])))
   \<and> lastProgress (snd (isNewDataAvailable mock_env (init_state ([4], [])))) = 0xFFFF
   \<and> fst (poll mock_env 3 (init_state ([0, 4], map word_bytes [90, 5]))) = [False, False, True]"
proof -
  let ?s = "init_state ([], [[0x12, 0x34 :: u8]]) :: mock state"
  let ?t = "init_state ([4], []) :: mock state"
  have l: "lastProgress ?s = 0" "lastProgress ?t = 0" by (simp_all add: init_state_def)
  have f: "read_failed mock_env 0x3C10 ?t"
    by (simp add: read_failed_def addr_phase_def init_state_def)
  have r: "fst (readAddr_unsigned mock_env 0x3C10 ?s) = 0x1234"
    by (simp add: run_defs)
  have p: "fst (poll mock_env 3 (init_state ([0, 4], map word_bytes [90, 5]))) = [False, False, True]"
    by (simp add: numeral_3_eq_3 isNewDataAvailable_def run_defs word_bytes_def split_beta)
  from isNewDataAvailable_wrap_detection [of mock_env ?s undefined "init_state ([], [])" "[]"]
    isNewDataAvailable_wrap_detection [of mock_env ?t undefined "init_state ([], [])" "[]"]
  show ?thesis
    using l f p by (auto simp: r)
qed

section \<open>Rounding to single precision\<close>

text \<open>
  The rounded value is within half a unit in the last place of the exact one; for a
  16-bit integer over 100 that is at most \<open>2 ^ -16\<close>, over 50 at most \<open>2 ^ -15\<close>.
\<close>

declare f32_exponent.simps [simp del]

lemma round_half_even_error: "\<bar>of_int (round_half_even q) - q\<bar> \<le> 1 / 2"
proof -
  have "of_int \<lfloor>q\<rfloor> \<le> q" "q < of_int \<lfloor>q\<rfloor> + 1" by linarith+
  then show ?thesis
    by (auto simp: round_half_even_def Let_def)
qed

lemma f32_exponent_result:
  "f32_exponent x e \<le> - 126 \<or> 2 powi (f32_exponent x e) \<le> x"
proof (induction x e rule: f32_exponent.induct)
  case (1 x e)
  show ?case
  proof (cases "e \<le> - 126 \<or> 2 powi e \<le> x")
    case True
    then show ?thesis by (subst (1 2) f32_exponent.simps) auto
  next
    case False
    with 1 show ?thesis by (subst (1 2) f32_exponent.simps) auto
  qed
qed

lemma f32_exponent_le: "f32_exponent x e \<le> e"
proof (induction x e rule: f32_exponent.induct)
  case (1 x e)
  show ?case
  proof (cases "e \<le> - 126 \<or> 2 powi e \<le> x")
    case True
    then show ?thesis by (subst f32_exponent.simps) auto
  next
    case False
    with 1 show ?thesis by (subst f32_exponent.simps) auto
  qed
qed

lemma f32_exponent_below:
  assumes "x < 2 powi k" and "0 \<le> k"
  shows "f32_exponent x e < k"
proof -
  from f32_exponent_result [of x e] show ?thesis
  proof
    assume "f32_exponent x e \<le> - 126"
    with assms(2) show ?thesis by simp
  next
    assume "2 powi f32_exponent x e \<le> x"
    with assms(1) have "(2::rat) powi f32_exponent x e < 2 powi k" by simp
    with assms(2) show ?thesis by (intro power_int_le_imp_less_exp [of "2::rat"]) simp_all
  qed
qed

lemma f32_round_error:
  "\<bar>f32_round x - x\<bar> \<le> 2 powi (f32_exponent \<bar>x\<bar> 127 - 24)"
proof -
  define e where "e = f32_exponent \<bar>x\<bar> 127"
  define u :: rat where "u = 2 powi (e - 23)"
  define m where "m = round_half_even (\<bar>x\<bar> / u)"
  have u: "0 < u" by (simp add: u_def)
  have r: "f32_round x = sgn x * of_int m * u"
    by (simp add: f32_round_def Let_def e_def u_def m_def)
  have "\<bar>of_int m - \<bar>x\<bar> / u\<bar> \<le> 1 / 2"
    unfolding m_def by (rule round_half_even_error)
  then have "\<bar>of_int m - \<bar>x\<bar> / u\<bar> * u \<le> 1 / 2 * u"
    using u by (intro mult_right_mono) simp_all
  moreover have "\<bar>of_int m - \<bar>x\<bar> / u\<bar> * u = \<bar>of_int m * u - \<bar>x\<bar>\<bar>"
  proof -
    have "\<bar>of_int m - \<bar>x\<bar> / u\<bar> * u = \<bar>(of_int m - \<bar>x\<bar> / u) * u\<bar>"
      using u by (simp add: abs_mult)
    also have "(of_int m - \<bar>x\<bar> / u) * u = of_int m * u - \<bar>x\<bar>"
      using u by (simp add: field_simps)
    finally show ?thesis .
  qed
  ultimately have b: "\<bar>of_int m * u - \<bar>x\<bar>\<bar> \<le> u / 2" by simp
  have "\<bar>f32_round x - x\<bar> \<le> u / 2"
  proof (cases "x = 0")
    case True
    with r have "f32_round x = 0" by simp
    with True u show ?thesis by simp
  next
    case False
    have "x = sgn x * \<bar>x\<bar>" by (simp add: sgn_mult_abs)
    then have "f32_round x - x = sgn x * of_int m * u - sgn x * \<bar>x\<bar>"
      by (simp only: r)
    then have "f32_round x - x = sgn x * (of_int m * u - \<bar>x\<bar>)"
      by (simp only: right_diff_distrib mult.assoc)
    then have "\<bar>f32_round x - x\<bar> = \<bar>sgn x\<bar> * \<bar>of_int m * u - \<bar>x\<bar>\<bar>"
      by (simp only: abs_mult)
    with False b show ?thesis by (simp add: abs_sgn_eq)
  qed
  moreover have "u / 2 = 2 powi (e - 24)"
  proof -
    have "(2::rat) powi (e - 23) = 2 powi (e - 24 + 1)" by simp
    also have "\<dots> = 2 powi (e - 24) * 2" by (subst power_int_add) simp_all
    finally show ?thesis by (simp add: u_def)
  qed
  ultimately show ?thesis by (simp add: e_def)
qed

lemma f32_div_int16_error:
  assumes "32768 < 2 ^ k * d"
  shows "\<bar>f32_round (of_int (sint (w::i16)) / of_nat d) - of_int (sint w) / of_nat d\<bar>
           \<le> 2 powi (int k - 25)"
proof -
  let ?x = "(of_int (sint w) :: rat) / of_nat d"
  from assms have d: "0 < d" by (cases d) simp_all
  have "\<bar>sint w\<bar> \<le> 32768" using sint16_bounds [of w] by simp
  then have "\<bar>(of_int (sint w) :: rat)\<bar> \<le> 32768"
    by (metis of_int_abs of_int_le_iff of_int_numeral)
  also have "(32768 :: rat) < 2 ^ k * of_nat d"
    using assms by (metis of_nat_less_iff of_nat_mult of_nat_numeral of_nat_power)
  finally have "\<bar>?x\<bar> < 2 ^ k"
    using d by (simp add: field_simps)
  then have "\<bar>?x\<bar> < 2 powi (int k)"
    by simp
  then have "f32_exponent \<bar>?x\<bar> 127 < int k"
    by (rule f32_exponent_below) simp
  then have "(2::rat) powi (f32_exponent \<bar>?x\<bar> 127 - 24) \<le> 2 powi (int k - 25)"
    by (intro power_int_increasing) simp_all
  with f32_round_error [of ?x] show ?thesis by simp
qed

text \<open>Three values the claims name, evaluated.\<close>

lemma f32_3357: "f32_round (3357 / 100) = 4400087 / 131072"
  by code_simp

lemma f32_250: "f32_round (250 / 50) = 5"
  by code_simp

lemma f32_m1: "f32_round (- (1 / 50)) = - (5368709 / 268435456)"
  by code_simp

section \<open>Temperature decoding\<close>

subsection \<open>The sensor temperature\<close>

lemma readTa_eq:
  "readTa env s =
     (f32_round (of_int (sint (fst (readAddr_signed env 0x3A2C s))) / 100),
      snd (readAddr_signed env 0x3A2C s))"
  by (simp add: readTa_def f32_div_def f32_of_int16_def split_beta)

lemma readTa_accuracy:
  "\<bar>fst (readTa env s) - of_int (sint (fst (readAddr_signed env 0x3A2C s))) / 100\<bar> \<le> 1 / 65536"
  using f32_div_int16_error [where k = 9 and d = 100 and w = "fst (readAddr_signed env 0x3A2C s)"]
  by (simp add: readTa_eq del: of_int_sint)

text \<open>
  Claim C7. \<open>readTa\<close> performs one signed read of register \<open>0x3A2C\<close> and returns the word,
  read as two's complement, divided by 100 in single precision. For the raw value 3357
  the result is the \<open>float\<close> 33.57, that is the binary32 value nearest to 33.57, which is
  4400087 / 131072.
\<close>

theorem readTa_scaled_sensor_temperature:
  "readTa env s =
     (f32_round (of_int (sint (fst (readAddr_signed env 0x3A2C s))) / 100),
      snd (readAddr_signed env 0x3A2C s))
   \<and> trace (snd (readTa env s)) = trace s @ read_events env 0x3A2C s
   \<and> (sint (fst (readAddr_signed env 0x3A2C s)) = 3357 \<longrightarrow>
        fst (readTa env s) = f32_round 33.57
        \<and> fst (readTa env s) = 4400087 / 131072
        \<and> \<bar>fst (readTa env s) - 33.57\<bar> < 1 / 1000000)"
proof (intro conjI impI)
  show e: "readTa env s =
     (f32_round (of_int (sint (fst (readAddr_signed env 0x3A2C s))) / 100),
      snd (readAddr_signed env 0x3A2C s))"
    by (rule readTa_eq)
  show "trace (snd (readTa env s)) = trace s @ read_events env 0x3A2C s"
    by (simp add: e readAddr_signed_eq readAddr_unsigned_trace)
  assume r: "sint (fst (readAddr_signed env 0x3A2C s)) = 3357"
  have d: "(33.57 :: rat) = 3357 / 100" by simp
  show v: "fst (readTa env s) = 4400087 / 131072"
    by (simp add: e r f32_3357)
  show "fst (readTa env s) = f32_round 33.57"
    unfolding v d f32_3357 ..
  show "\<bar>fst (readTa env s) - 33.57\<bar> < 1 / 1000000"
    unfolding v by simp
qed

theorem readTa_scaled_sensor_temperature_witness:
  "fst (readTa mock_env (init_state ([], [[0x0D, 0x1D]]))) = 4400087 / 131072
   \<and> fst (readTa mock_env (init_state ([], [[0x0D, 0x1D]]))) = f32_round 33.57
   \<and> trace (snd (readTa mock_env (init_state ([], [[0x0D, 0x1D]]))))
       = [Transmit 0x66 [0x3A, 0x2C] False 0, Request 0x66 2 [0x0D, 0x1D]]"
proof -
  let ?s = "init_state ([], [[0x0D, 0x1D :: u8]]) :: mock state"
  have r: "sint (fst (readAddr_signed mock_env 0x3A2C ?s)) = 3357"
    by (simp add: run_defs)
  have e: "read_events mock_env 0x3A2C ?s
      = [Transmit 0x66 [0x3A, 0x2C] False 0, Request 0x66 2 [0x0D, 0x1D]]"
    by (simp add: read_events_def addr_phase_def response_def run_defs)
  have t: "trace ?s = []" by (simp add: init_state_def)
  from readTa_scaled_sensor_temperature [of mock_env ?s]
  show ?thesis by (auto simp: r e t)
qed

subsection \<open>The pixel frame\<close>

declare readTempC_loop.simps [simp del]

lemma readTempC_loop_inv:
  assumes "768 \<le> length Tram" and "i \<le> 768"
  shows "readTempC_loop env i Tram (state_before env s i) =
     Inr (take i Tram @ map (\<lambda>i. f32_round (of_int (sint (raw_pixel env s i)) / 50)) [i..<768]
            @ drop 768 Tram,
          state_before env s 768)"
  using assms
proof (induction "768 - i" arbitrary: i Tram)
  case 0
  then have "i = 768" by simp
  then show ?case
    by (simp add: readTempC_loop.simps [of env 768] NUM_PIXELS_def)
next
  case (Suc n)
  then have i: "i < 768" and l: "i < length Tram" by simp_all
  let ?v = "f32_round (of_int (sint (raw_pixel env s i)) / 50)"
  have n: "n = 768 - Suc i" using Suc.hyps(2) by simp
  have len: "768 \<le> length (Tram[i := ?v])" using Suc.prems(1) by simp
  have step: "readTempC_loop env i Tram (state_before env s i) =
      readTempC_loop env (Suc i) (Tram[i := ?v]) (state_before env s (Suc i))"
    using i l
    by (subst readTempC_loop.simps)
      (simp add: NUM_PIXELS_def split_beta raw_pixel_def f32_div_def f32_of_int16_def)
  have t: "take (Suc i) (Tram[i := ?v]) = take i Tram @ [?v]"
    using l by (simp add: take_Suc_conv_app_nth)
  have u: "[i..<768] = i # [Suc i..<768]" using i by (simp add: upt_conv_Cons)
  have d: "drop 768 (Tram[i := ?v]) = drop 768 Tram" using i by simp
  have si: "Suc i \<le> 768" using i by simp
  show ?case
    unfolding step Suc.hyps(1) [OF n len si] t d u by simp
qed

lemma readTempC_eq:
  assumes "768 \<le> length Tram"
  shows "readTempC env Tram s = Inr (decoded_frame env s @ drop 768 Tram, state_before env s 768)"
  using readTempC_loop_inv [OF assms, of 0 env s]
  by (simp add: readTempC_def decoded_frame_def)

lemma decoded_frame_accuracy:
  assumes "i < 768"
  shows "\<bar>decoded_frame env s ! i - of_int (sint (raw_pixel env s i)) / 50\<bar> \<le> 1 / 32768"
  using f32_div_int16_error [where k = 10 and d = 50 and w = "raw_pixel env s i"] assms
  by (simp add: decoded_frame_def del: of_int_sint)

text \<open>
  Claim C5. Given an array of at least 768 elements, \<open>readTempC\<close> returns normally; element
  \<open>i\<close> of the result, for every \<open>i\<close> below 768, is the signed word read at \<open>pix_addr i\<close>
  (after the reads of the pixels before it, each read once) divided by 50 in single
  precision, and the elements from 768 on are untouched. A failed read of pixel \<open>i\<close>
  decodes as -1 and is stored as the \<open>float\<close> -0.02. If every pixel reads 250, every
  element of the frame is 5.
\<close>

theorem readTempC_decodes_every_pixel:
  assumes "768 \<le> length Tram"
  shows "readTempC env Tram s = Inr (decoded_frame env s @ drop 768 Tram, state_before env s 768)
   \<and> length (decoded_frame env s) = 768
   \<and> (\<forall>i<768. decoded_frame env s ! i =
         f32_round (of_int (sint (fst (readAddr_signed env (pix_addr (word_of_nat i))
                                        (state_before env s i)))) / 50))
   \<and> (\<forall>i<768. read_failed env (pix_addr (word_of_nat i)) (state_before env s i) \<longrightarrow>
         sint (raw_pixel env s i) = - 1
         \<and> decoded_frame env s ! i = f32_round (- 0.02)
         \<and> decoded_frame env s ! i = - 5368709 / 268435456)
   \<and> ((\<forall>i<768. sint (raw_pixel env s i) = 250) \<longrightarrow> decoded_frame env s = replicate 768 5)"
proof (intro conjI allI impI)
  show "readTempC env Tram s = Inr (decoded_frame env s @ drop 768 Tram, state_before env s 768)"
    using assms by (rule readTempC_eq)
  show "length (decoded_frame env s) = 768" by (simp add: decoded_frame_def)
next
  fix i :: nat assume i: "i < 768"
  then show "decoded_frame env s ! i =
         f32_round (of_int (sint (fst (readAddr_signed env (pix_addr (word_of_nat i))
                                        (state_before env s i)))) / 50)"
    by (simp add: decoded_frame_def raw_pixel_def)
next
  fix i :: nat assume i: "i < 768"
    and f: "read_failed env (pix_addr (word_of_nat i)) (state_before env s i)"
  have d: "(- 0.02 :: rat) = - 1 / 50" by simp
  from f show r: "sint (raw_pixel env s i) = - 1"
    unfolding raw_pixel_def by (rule readAddr_signed_failed)
  have "f32_round (of_int (sint (raw_pixel env s i)) / 50) = f32_round (- 1 / 50)"
    unfolding r by simp
  with i show v: "decoded_frame env s ! i = - 5368709 / 268435456"
    by (simp add: decoded_frame_def f32_m1 del: of_int_sint)
  show "decoded_frame env s ! i = f32_round (- 0.02)"
    unfolding v d by (simp add: f32_m1)
next
  assume a: "\<forall>i<768. sint (raw_pixel env s i) = 250"
  have "f32_round (of_int (sint (raw_pixel env s i)) / 50) = 5" if "i < 768" for i
  proof -
    from a that have "sint (raw_pixel env s i) = 250" by simp
    then have "f32_round (of_int (sint (raw_pixel env s i)) / 50) = f32_round (250 / 50)"
      by (simp only: of_int_numeral)
    then show ?thesis by (simp only: f32_250)
  qed
  then have "decoded_frame env s = map (\<lambda>i. 5) [0..<768]"
    unfolding decoded_frame_def
    by (intro map_cong) simp_all
  then show "decoded_frame env s = replicate 768 5"
    by (simp add: map_replicate_trivial)
qed

theorem readTempC_decodes_every_pixel_witness:
  "(\<exists>s'. readTempC (const_env 250) (replicate 768 0) (init_state ()) = Inr (replicate 768 5, s'))
   \<and> (\<exists>T s'. readTempC mock_env (replicate 768 0) (init_state ([2], [])) = Inr (T, s')
         \<and> T ! 0 = - 5368709 / 268435456)"
proof -
  have l: "768 \<le> length (replicate 768 (0 :: float32))" by simp
  have a: "\<forall>i<768. sint (raw_pixel (const_env 250) (init_state ()) i) = 250"
    by (simp add: raw_pixel_def const_env_read)
  have f: "read_failed mock_env (pix_addr (word_of_nat 0)) (state_before mock_env (init_state ([2], [])) 0)"
    by (simp add: read_failed_def addr_phase_def init_state_def)
  from readTempC_decodes_every_pixel [OF l, of "const_env 250" "init_state ()"] a
  have "\<exists>s'. readTempC (const_env 250) (replicate 768 0) (init_state ()) = Inr (replicate 768 5, s')"
    by simp
  moreover
  have "\<exists>T s'. readTempC mock_env (replicate 768 0) (init_state ([2], [])) = Inr (T, s')
         \<and> T ! 0 = - 5368709 / 268435456"
  proof -
    note T = readTempC_decodes_every_pixel [OF l, of mock_env "init_state ([2], [])"]
    from T have e: "readTempC mock_env (replicate 768 0) (init_state ([2], []))
        = Inr (decoded_frame mock_env (init_state ([2], [])) @ drop 768 (replicate 768 0),
               state_before mock_env (init_state ([2], [])) 768)"
      by (rule conjunct1)
    from T have n: "length (decoded_frame mock_env (init_state ([2], []))) = 768"
      by (rule conjunct2 [THEN conjunct1])
    note T4 = T [THEN conjunct2, THEN conjunct2, THEN conjunct2, THEN conjunct1, rule_format, of 0]
    from T4 f have "decoded_frame mock_env (init_state ([2], [])) ! 0 = - 5368709 / 268435456"
      by simp
    with n have "(decoded_frame mock_env (init_state ([2], [])) @ drop 768 (replicate 768 0)) ! 0
        = - 5368709 / 268435456"
      by (simp add: nth_append)
    with e show ?thesis by (intro exI conjI)
  qed
  ultimately show ?thesis ..
qed

section \<open>Frame output\<close>

subsection \<open>Values with long text\<close>

declare printFrame_loop.simps [simp del]

lemma printFrame_loop_overflow:
  assumes "length (fmt v) = 34" and "i \<le> 176"
  shows "\<exists>buf'. printFrame_loop fmt (replicate 768 v) i (34 * int i) buf = Inr (6018, buf')"
  using assms(2)
proof (induction "176 - i" arbitrary: i buf)
  case 0
  then have i: "i = 176" by simp
  show ?case
    unfolding i
    by (subst printFrame_loop.simps)
      (simp add: NUM_PIXELS_def FRAME_BUFFER_SIZE_def snprintf_def assms(1) Let_def)
next
  case (Suc n)
  then have i: "i < 176" and n: "n = 176 - Suc i" and si: "Suc i \<le> 176" by simp_all
  let ?b = "fst (snprintf buf (nat (34 * int i)) (nat (FRAME_BUFFER_SIZE - 34 * int i)) (fmt v))"
  have "printFrame_loop fmt (replicate 768 v) i (34 * int i) buf
      = printFrame_loop fmt (replicate 768 v) (Suc i) (34 * int (Suc i)) ?b"
    using i
    by (subst printFrame_loop.simps)
      (simp add: NUM_PIXELS_def FRAME_BUFFER_SIZE_def snprintf_def assms(1) Let_def add.commute)
  with Suc.hyps(1) [OF n si, of ?b] show ?case by simp
qed

text \<open>
  Claim C8 at a failing input. When the C library renders a pixel value as 34
  characters (\<open>",%.1f"\<close> of \<open>2 ^ 100\<close> is \<open>,1267650600228229401496703205376.0\<close>),
  \<open>printFrame\<close> on a frame of 768 such values leaves the loop with \<open>index = 6018\<close> and
  stores the newline at \<open>frameBuffer[6018]\<close>, outside the 6000-character array.
\<close>

theorem printFrame_overflows_on_long_values:
  assumes "length (fmt v) = 34"
  shows "printFrame fmt (replicate 768 v) frameBuffer = Inl (WriteOutOfBounds 6018)"
proof -
  from printFrame_loop_overflow [of fmt v 0 frameBuffer, OF assms]
  obtain buf' where "printFrame_loop fmt (replicate 768 v) 0 0 frameBuffer = Inr (6018, buf')"
    by auto
  then show ?thesis by (simp add: printFrame_def FRAME_BUFFER_SIZE_def)
qed

theorem printFrame_overflows_on_long_values_witness:
  "length '',1267650600228229401496703205376.0'' = 34
   \<and> printFrame (\<lambda>v :: float32. '',1267650600228229401496703205376.0'')
        (replicate 768 (2 ^ 100)) (replicate 6000 (CHR 0x00))
      = Inl (WriteOutOfBounds 6018)"
  using printFrame_overflows_on_long_values
    [of "\<lambda>v :: float32. '',1267650600228229401496703205376.0''" "2 ^ 100" "replicate 6000 (CHR 0x00)"]
  by simp

subsection \<open>Frames whose text fits\<close>

text \<open>
  When no pixel is rendered with more than 9 characters, every store of \<open>printFrame\<close>
  stays inside the array. When in addition the whole line is shorter than 5990
  characters, the bytes written are the texts of all 768 pixels in index order followed
  by a newline.
\<close>

lemma printFrame_loop_bounded:
  assumes "768 \<le> length Tdat"
    and "\<forall>j<768. length (fmt (Tdat ! j)) \<le> 9"
    and "0 \<le> index" and "index < 5990" and "i \<le> 768"
  shows "\<exists>idx buf'. printFrame_loop fmt Tdat i index buf = Inr (idx, buf') \<and> 0 \<le> idx \<and> idx \<le> 5998"
  using assms(3-5)
proof (induction "768 - i" arbitrary: i index buf)
  case 0
  then have "i = 768" by simp
  with 0 show ?case
    by (subst printFrame_loop.simps) (simp add: NUM_PIXELS_def)
next
  case (Suc n)
  then have i: "i < 768" and n: "n = 768 - Suc i" and si: "Suc i \<le> 768" by simp_all
  from i assms(1) have l: "i < length Tdat" by simp
  from i assms(2) have p: "length (fmt (Tdat ! i)) \<le> 9" by simp
  let ?b = "fst (snprintf buf (nat index) (nat (FRAME_BUFFER_SIZE - index)) (fmt (Tdat ! i)))"
  let ?w = "int (length (fmt (Tdat ! i)))"
  have w: "snd (snprintf buf (nat index) (nat (FRAME_BUFFER_SIZE - index)) (fmt (Tdat ! i))) = ?w"
    by (simp add: snprintf_def Let_def)
  show ?case
  proof (cases "?w \<le> 0 \<or> index + ?w \<ge> 5990")
    case True
    with i l w p Suc.prems(1,2) show ?thesis
      by (subst printFrame_loop.simps)
        (auto simp: NUM_PIXELS_def FRAME_BUFFER_SIZE_def split_beta Let_def)
  next
    case False
    then have c: "0 \<le> index + ?w" "index + ?w < 5990" using Suc.prems(1) by simp_all
    have "printFrame_loop fmt Tdat i index buf = printFrame_loop fmt Tdat (Suc i) (index + ?w) ?b"
      using i l w False
      by (subst printFrame_loop.simps)
        (simp add: NUM_PIXELS_def FRAME_BUFFER_SIZE_def split_beta Let_def)
    with Suc.hyps(1) [OF n c si, of ?b] show ?thesis by simp
  qed
qed

lemma printFrame_no_overflow_short_values:
  assumes "768 \<le> length Tdat"
    and "\<forall>j<768. length (fmt (Tdat ! j)) \<le> 9"
  shows "\<exists>buf out. printFrame fmt Tdat frameBuffer = Inr (buf, out)"
proof -
  from printFrame_loop_bounded [OF assms, of 0 0 frameBuffer]
  obtain idx buf' where "printFrame_loop fmt Tdat 0 0 frameBuffer = Inr (idx, buf')"
    and "0 \<le> idx" and "idx \<le> 5998" by auto
  then show ?thesis
    by (simp add: printFrame_def FRAME_BUFFER_SIZE_def Let_def)
qed

lemma frame_text_Suc:
  "i < length Tdat \<Longrightarrow> frame_text fmt Tdat (Suc i) = frame_text fmt Tdat i @ fmt (Tdat ! i)"
  by (simp add: frame_text_def take_Suc_conv_app_nth)

lemma frame_text_mono:
  assumes "i \<le> j"
  shows "length (frame_text fmt Tdat i) \<le> length (frame_text fmt Tdat j)"
proof -
  from assms have "take j Tdat = take i Tdat @ drop i (take j Tdat)"
    by (metis append_take_drop_id min.absorb1 take_take)
  then have "frame_text fmt Tdat j = frame_text fmt Tdat i @ concat (map fmt (drop i (take j Tdat)))"
    unfolding frame_text_def by (metis concat_append map_append)
  then show ?thesis by simp
qed

lemma snprintf_fits:
  assumes "pos + length txt < n'" and "length buf = n'" and "take pos buf = pre"
  shows "snprintf buf pos (n' - pos) txt = (pre @ txt @ CHR 0x00 # drop (pos + length txt + 1) buf, int (length txt))"
  using assms by (simp add: snprintf_def Let_def)

lemma printFrame_loop_fits:
  assumes "768 \<le> length Tdat"
    and "\<forall>j<768. fmt (Tdat ! j) \<noteq> []"
    and "length (frame_text fmt Tdat 768) < 5990"
    and "i \<le> 768"
    and "length buf = 6000"
    and "take (length (frame_text fmt Tdat i)) buf = frame_text fmt Tdat i"
  shows "\<exists>buf'. printFrame_loop fmt Tdat i (int (length (frame_text fmt Tdat i))) buf
            = Inr (int (length (frame_text fmt Tdat 768)), buf')
          \<and> length buf' = 6000
          \<and> take (length (frame_text fmt Tdat 768)) buf' = frame_text fmt Tdat 768"
  using assms(4-6)
proof (induction "768 - i" arbitrary: i buf)
  case 0
  then have "i = 768" by simp
  with 0 show ?case
    by (subst printFrame_loop.simps) (simp add: NUM_PIXELS_def)
next
  case (Suc n)
  then have i: "i < 768" and n: "n = 768 - Suc i" and si: "Suc i \<le> 768" by simp_all
  from i assms(1) have l: "i < length Tdat" by simp
  from i assms(2) have p: "fmt (Tdat ! i) \<noteq> []" by simp
  let ?pos = "length (frame_text fmt Tdat i)"
  let ?txt = "fmt (Tdat ! i)"
  let ?b = "frame_text fmt Tdat i @ ?txt @ CHR 0x00 # drop (?pos + length ?txt + 1) buf"
  have nx: "frame_text fmt Tdat (Suc i) = frame_text fmt Tdat i @ ?txt"
    using l by (rule frame_text_Suc)
  have le: "length (frame_text fmt Tdat (Suc i)) < 5990"
    using frame_text_mono [OF si, of fmt Tdat] assms(3) by simp
  then have b: "?pos + length ?txt < 5990" by (simp add: nx)
  then have b': "?pos + length ?txt < 6000" by simp
  have sn: "snprintf buf ?pos (6000 - ?pos) ?txt = (?b, int (length ?txt))"
    using snprintf_fits [OF b' Suc.prems(2) Suc.prems(3)] by simp
  have nat6000: "nat (6000 - int ?pos) = 6000 - ?pos" by simp
  have step: "printFrame_loop fmt Tdat i (int ?pos) buf
      = printFrame_loop fmt Tdat (Suc i) (int (length (frame_text fmt Tdat (Suc i)))) ?b"
    using i l p b
    by (subst printFrame_loop.simps)
      (simp add: NUM_PIXELS_def FRAME_BUFFER_SIZE_def nat6000 sn nx)
  have lb: "length ?b = 6000" using b' Suc.prems(2) by simp
  have tb: "take (length (frame_text fmt Tdat (Suc i))) ?b = frame_text fmt Tdat (Suc i)"
    by (simp add: nx)
  from Suc.hyps(1) [OF n si lb tb] show ?case
    unfolding step .
qed

lemma printFrame_formats_frame:
  assumes "768 \<le> length Tdat"
    and "\<forall>j<768. fmt (Tdat ! j) \<noteq> []"
    and "length (concat (map fmt (take 768 Tdat))) < 5990"
    and "length frameBuffer = 6000"
  shows "\<exists>buf. printFrame fmt Tdat frameBuffer
           = Inr (buf, concat (map fmt (take 768 Tdat)) @ [CHR 0x0A])"
proof -
  let ?t = "frame_text fmt Tdat 768"
  have z: "frame_text fmt Tdat 0 = []" by (simp add: frame_text_def)
  have a3: "length ?t < 5990" using assms(3) by (simp add: frame_text_def)
  from printFrame_loop_fits [OF assms(1,2) a3, of 0 frameBuffer] assms(4)
  obtain buf' where r: "printFrame_loop fmt Tdat 0 0 frameBuffer = Inr (int (length ?t), buf')"
    and lb: "length buf' = 6000" and tb: "take (length ?t) buf' = ?t"
    by (auto simp: z)
  have "take (Suc (length ?t)) (buf'[length ?t := CHR 0x0A, Suc (length ?t) := CHR 0x00])
      = ?t @ [CHR 0x0A]"
    using a3 lb tb by (simp add: take_Suc_conv_app_nth)
  with a3 r show ?thesis
    by (simp add: printFrame_def FRAME_BUFFER_SIZE_def Let_def nat_add_distrib frame_text_def)
qed

end
